theory Spec2Isabelle
  imports Complex_Main "HOL-Library.Multiset"
begin

section \<open>The statistics object of \<^verbatim>\<open>scripts/req_mock.py\<close>\<close>

text \<open>
  Python's unbounded integers are \<open>int\<close>. Python's floats (the response times, read from
  \<^verbatim>\<open>time.time()\<close>) are real numbers. \<open>get_summary\<close> computes with them exactly, which
  gives the formulas of its fields; \<open>get_summary_float\<close>, further down, rounds every
  operation as the binary floating-point format does. A Python \<^verbatim>\<open>str\<close> is a \<open>string\<close>, one
  list element per character.
\<close>

record RequestStats =
  total_requests :: int
  successful_requests :: int
  failed_requests :: int
  response_times :: "real list"
  errors :: "string list"

text \<open>\<^verbatim>\<open>RequestStats.__init__\<close>\<close>

definition RequestStats_init :: RequestStats where
  "RequestStats_init =
     \<lparr>total_requests = 0, successful_requests = 0, failed_requests = 0,
      response_times = [], errors = []\<rparr>"

text \<open>\<^verbatim>\<open>RequestStats.add_success(self, response_time)\<close>: the object is mutated in place; the
  model returns the new object.\<close>

definition add_success :: "RequestStats \<Rightarrow> real \<Rightarrow> RequestStats" where
  "add_success self response_time =
     self\<lparr>total_requests := total_requests self + 1,
          successful_requests := successful_requests self + 1,
          response_times := response_times self @ [response_time]\<rparr>"

text \<open>\<^verbatim>\<open>RequestStats.add_failure(self, error, response_time=0)\<close>: the response time is kept
  only when it is positive.\<close>

definition add_failure :: "RequestStats \<Rightarrow> string \<Rightarrow> real \<Rightarrow> RequestStats" where
  "add_failure self error response_time =
     (let self1 = self\<lparr>total_requests := total_requests self + 1,
                        failed_requests := failed_requests self + 1,
                        errors := errors self @ [error]\<rparr>
      in if response_time > 0
         then self1\<lparr>response_times := response_times self1 @ [response_time]\<rparr>
         else self1)"

text \<open>Python's \<^verbatim>\<open>min\<close> and \<^verbatim>\<open>max\<close> of a list: the first element is the candidate, every
  later element is compared with it. On the empty list Python raises \<^verbatim>\<open>ValueError\<close>;
  \<^verbatim>\<open>get_summary\<close> calls them on a non-empty list only.\<close>

fun py_min :: "real list \<Rightarrow> real" where
  "py_min [] = 0"
| "py_min (x # xs) = fold min xs x"

fun py_max :: "real list \<Rightarrow> real" where
  "py_max [] = 0"
| "py_max (x # xs) = fold max xs x"

text \<open>Python's \<^verbatim>\<open>round(x, ndigits)\<close> for \<^verbatim>\<open>ndigits >= 0\<close>: the nearest multiple of
  \<open>10 ^ - ndigits\<close>; a value half way between two of them goes to the one whose last
  digit is even.\<close>

definition py_round :: "real \<Rightarrow> nat \<Rightarrow> real" where
  "py_round x ndigits =
     (let p = 10 ^ ndigits;
          y = x * p;
          f = \<lfloor>y\<rfloor>;
          d = y - of_int f
      in of_int (if d < 1 / 2 then f
                 else if d > 1 / 2 then f + 1
                 else if even f then f else f + 1) / p)"

text \<open>The dictionary that \<^verbatim>\<open>get_summary\<close> returns has a fixed set of keys: a record, one
  field per key (prefixed with \<open>sm_\<close>, since three keys are also attribute names of
  \<^verbatim>\<open>RequestStats\<close>).\<close>

record Summary =
  sm_total_requests :: int
  sm_successful_requests :: int
  sm_failed_requests :: int
  sm_success_rate :: real
  sm_avg_response_time_ms :: real
  sm_min_response_time_ms :: real
  sm_max_response_time_ms :: real
  sm_errors :: "string list"

text \<open>\<^verbatim>\<open>RequestStats.get_summary(self)\<close>\<close>

definition get_summary :: "RequestStats \<Rightarrow> Summary" where
  "get_summary self =
     (let (avg_response_time, min_response_time, max_response_time) =
            (if response_times self \<noteq> []
             then (sum_list (response_times self) / real (length (response_times self)),
                   py_min (response_times self),
                   py_max (response_times self))
             else (0, 0, 0))
      in \<lparr>sm_total_requests = total_requests self,
          sm_successful_requests = successful_requests self,
          sm_failed_requests = failed_requests self,
          sm_success_rate =
            (if total_requests self > 0
             then real_of_int (successful_requests self) / real_of_int (total_requests self) * 100
             else 0),
          sm_avg_response_time_ms = py_round (avg_response_time * 1000) 2,
          sm_min_response_time_ms = py_round (min_response_time * 1000) 2,
          sm_max_response_time_ms = py_round (max_response_time * 1000) 2,
          sm_errors = take 10 (errors self)\<rparr>)"

text \<open>The states a \<^verbatim>\<open>RequestStats\<close> object can be in: the constructor's, and whatever
  calls of its two mutating methods lead to.\<close>

inductive reachable :: "RequestStats \<Rightarrow> bool" where
  reachable_init: "reachable RequestStats_init"
| reachable_success: "reachable s \<Longrightarrow> reachable (add_success s t)"
| reachable_failure: "reachable s \<Longrightarrow> reachable (add_failure s e t)"

text \<open>
  The program has no class for the result of one request: a result reaches the statistics
  object as one call of \<^verbatim>\<open>add_success\<close> or of \<^verbatim>\<open>add_failure\<close>. An \<open>outcome\<close> is the
  arguments of one such call, and \<open>ingest_all\<close> makes the calls of a list of outcomes, in
  order, on a fresh object.
\<close>

datatype outcome = Success real | Failure string real

fun ingest :: "RequestStats \<Rightarrow> outcome \<Rightarrow> RequestStats" where
  "ingest s (Success t) = add_success s t"
| "ingest s (Failure e t) = add_failure s e t"

definition ingest_all :: "outcome list \<Rightarrow> RequestStats" where
  "ingest_all rs = foldl ingest RequestStats_init rs"

text \<open>What one outcome adds to \<^verbatim>\<open>response_times\<close> and to \<^verbatim>\<open>errors\<close>, and whether it
  counts as a success.\<close>

fun latency_of :: "outcome \<Rightarrow> real list" where
  "latency_of (Success t) = [t]"
| "latency_of (Failure e t) = (if t > 0 then [t] else [])"

fun error_of :: "outcome \<Rightarrow> string list" where
  "error_of (Success t) = []"
| "error_of (Failure e t) = [e]"

fun is_success :: "outcome \<Rightarrow> bool" where
  "is_success (Success t) = True"
| "is_success (Failure e t) = False"

section \<open>The summary in the arithmetic of Python's floats\<close>

text \<open>
  \<open>get_summary\<close> above computes in exact arithmetic: it gives the formulas of the fields.
  A Python float is a binary64 number, and every arithmetic operation on floats returns
  the binary64 number nearest to the exact result, the one with the even significand when
  two are equally near. Where a claim depends on that rounding, as a claim about the order
  of the terms of a float sum does, \<open>get_summary_float\<close> is the same method with every
  operation rounded. Results beyond the range of binary64 (infinities) are outside this
  model.
\<close>

definition round_half_even :: "real \<Rightarrow> int" where
  "round_half_even y =
     (let f = \<lfloor>y\<rfloor>; d = y - of_int f
      in if d < 1 / 2 then f else if d > 1 / 2 then f + 1 else if even f then f else f + 1)"

text \<open>The binary64 number nearest to \<open>x\<close>: a multiple of \<open>2 ^ (e - 52)\<close>, where \<open>2 ^ e\<close>
  is the power of two at or below \<open>\<bar>x\<bar>\<close> (and \<open>e\<close> is - 1022 for a subnormal number).\<close>

definition fl :: "real \<Rightarrow> real" where
  "fl x =
     (if x = 0 then 0
      else (let e = max \<lfloor>log 2 \<bar>x\<bar>\<rfloor> (- 1022);
                u = 2 powi (e - 52)
            in of_int (round_half_even (x / u)) * u))"

text \<open>
  Python's \<^verbatim>\<open>sum\<close> of a list of floats (the interpreter the script asks for, 3.13, and
  every one from 3.12 on). The first element is added to the integer 0. Every later element
  \<open>x\<close> is added to the running sum \<open>f\<close>, and the rounding error of that addition is added
  to the compensation \<open>c\<close>; at the end the compensation, when it is not 0, is added to
  the sum.
\<close>

fun neumaier :: "real \<Rightarrow> real \<Rightarrow> real list \<Rightarrow> real" where
  "neumaier f c [] = (if c \<noteq> 0 then fl (f + c) else f)"
| "neumaier f c (x # xs) =
     (let t = fl (f + x);
          c' = (if \<bar>f\<bar> \<ge> \<bar>x\<bar> then fl (c + fl (fl (f - t) + x))
                else fl (c + fl (fl (x - t) + f)))
      in neumaier t c' xs)"

definition py_sum :: "real list \<Rightarrow> real" where
  "py_sum xs = (case xs of [] \<Rightarrow> 0 | x # xs' \<Rightarrow> neumaier x 0 xs')"

text \<open>\<^verbatim>\<open>RequestStats.get_summary(self)\<close> on floats: the quotient of two integers is the float
  nearest to it, and \<^verbatim>\<open>round(x, 2)\<close> is the float nearest to the rounded decimal.\<close>

definition get_summary_float :: "RequestStats \<Rightarrow> Summary" where
  "get_summary_float self =
     (let (avg_response_time, min_response_time, max_response_time) =
            (if response_times self \<noteq> []
             then (fl (py_sum (response_times self) / real (length (response_times self))),
                   py_min (response_times self),
                   py_max (response_times self))
             else (0, 0, 0))
      in \<lparr>sm_total_requests = total_requests self,
          sm_successful_requests = successful_requests self,
          sm_failed_requests = failed_requests self,
          sm_success_rate =
            (if total_requests self > 0
             then fl (fl (real_of_int (successful_requests self)
                          / real_of_int (total_requests self)) * 100)
             else 0),
          sm_avg_response_time_ms = fl (py_round (fl (avg_response_time * 1000)) 2),
          sm_min_response_time_ms = fl (py_round (fl (min_response_time * 1000)) 2),
          sm_max_response_time_ms = fl (py_round (fl (max_response_time * 1000)) 2),
          sm_errors = take 10 (errors self)\<rparr>)"

section \<open>One request: \<^verbatim>\<open>make_request\<close>\<close>

text \<open>
  The exceptions that the \<^verbatim>\<open>try\<close> block of \<^verbatim>\<open>make_request\<close> can meet, by the handler
  that takes them; the string is \<^verbatim>\<open>str(e)\<close>.
  \<^item> \<open>ClientError\<close>: an instance of \<^verbatim>\<open>aiohttp.ClientError\<close> (the library's connection,
    payload and response errors).
  \<^item> \<open>TimeoutError\<close>: \<^verbatim>\<open>asyncio.TimeoutError\<close>, which the library raises when the
    session's \<^verbatim>\<open>ClientTimeout(total=30)\<close> expires; it is not an \<^verbatim>\<open>aiohttp.ClientError\<close>.
  \<^item> \<open>OtherException\<close>: any other instance of \<^verbatim>\<open>Exception\<close>.
  Exceptions outside \<^verbatim>\<open>Exception\<close> (cancellation, a keyboard interrupt) interrupt the
  run and are not modelled.
\<close>

datatype exn = ClientError string | TimeoutError string | OtherException string

fun str :: "exn \<Rightarrow> string" where
  "str (ClientError d) = d"
| "str (TimeoutError d) = d"
| "str (OtherException d) = d"

fun isinstance_ClientError :: "exn \<Rightarrow> bool" where
  "isinstance_ClientError (ClientError d) = True"
| "isinstance_ClientError (TimeoutError d) = False"
| "isinstance_ClientError (OtherException d) = False"

text \<open>Exceptions raised outside every \<^verbatim>\<open>try\<close> block of the batch: the \<^verbatim>\<open>ValueError\<close> of
  \<^verbatim>\<open>random.randint\<close> on an empty range and that of \<^verbatim>\<open>asyncio.Semaphore\<close> on a negative
  value.\<close>

datatype raised = RandintValueError | SemaphoreValueError

text \<open>\<^verbatim>\<open>random.randint(a, b)\<close>: the generator's draw is the argument \<open>r\<close>.\<close>

definition randint :: "int \<Rightarrow> int \<Rightarrow> nat \<Rightarrow> raised + int" where
  "randint a b r = (if a > b then Inl RandintValueError else Inr (a + int r mod (b - a + 1)))"

text \<open>Python's \<^verbatim>\<open>str\<close> of an integer, as the f-strings format it: decimal digits, a minus
  sign before a negative number.\<close>

fun str_nat :: "nat \<Rightarrow> string" where
  "str_nat n =
     (if n < 10 then [char_of (48 + n)] else str_nat (n div 10) @ [char_of (48 + n mod 10)])"

declare str_nat.simps [simp del]

definition str_int :: "int \<Rightarrow> string" where
  "str_int i = (if i < 0 then CHR ''-'' # str_nat (nat (- i)) else str_nat (nat i))"

text \<open>
  What one call of \<^verbatim>\<open>make_request\<close> meets: the generator's draw, the clock at
  \<^verbatim>\<open>start_time = time.time()\<close>, and what \<^verbatim>\<open>session.get(url)\<close> does.
  \<^item> \<open>Response status end_time body\<close>: the response arrives (status line and headers)
    and the clock read on the next line gives \<open>end_time\<close>; then \<^verbatim>\<open>response.text()\<close>
    reads the body.
  \<^item> \<open>Text content read_time\<close>: the body is read; \<open>read_time\<close> is the wall-clock time at
    which the read was complete (the program does not read the clock there).
  \<^item> \<open>TextRaises e end_time\<close> and \<open>GetRaises e end_time\<close>: the call raises \<open>e\<close>; the
    handler's \<^verbatim>\<open>time.time()\<close> gives \<open>end_time\<close>.

  The \<^verbatim>\<open>print\<close> of the progress line after \<^verbatim>\<open>add_success\<close> and after the \<^verbatim>\<open>add_failure\<close>
  of a status other than 200 stands inside the \<^verbatim>\<open>try\<close> block. It returns (\<open>Printed\<close>),
  or it raises \<open>e\<close>, as it does when the standard output cannot encode the check mark of
  the line or is a closed pipe, and the handler's \<^verbatim>\<open>time.time()\<close> gives \<open>end_time\<close>
  (\<open>PrintRaises e end_time\<close>). The \<^verbatim>\<open>print\<close> of the two handlers stands after their
  \<^verbatim>\<open>add_failure\<close>, outside every \<^verbatim>\<open>try\<close>: an exception of it leaves \<^verbatim>\<open>make_request\<close>
  when the record is made, \<^verbatim>\<open>asyncio.gather\<close> keeps it, and the state is the same as
  without it.
\<close>

datatype body_read = Text string real | TextRaises exn real

datatype get_result = Response int real body_read | GetRaises exn real

datatype print_result = Printed | PrintRaises exn real

record attempt =
  draw :: nat
  start_time :: real
  get_result :: get_result
  progress_print :: print_result

text \<open>The two \<^verbatim>\<open>except\<close> clauses of \<^verbatim>\<open>make_request\<close>, in the source's order.\<close>

definition handle_exception :: "RequestStats \<Rightarrow> real \<Rightarrow> exn \<Rightarrow> real \<Rightarrow> RequestStats" where
  "handle_exception stats start e end_time =
     (if isinstance_ClientError e
      then (let response_time = end_time - start;
                error_msg = ''ClientError: '' @ str e
            in add_failure stats error_msg response_time)
      else (let response_time = end_time - start;
                error_msg = ''Exception: '' @ str e
            in add_failure stats error_msg response_time))"

text \<open>The \<^verbatim>\<open>print\<close> of the \<^verbatim>\<open>try\<close> block, on the object that has the record of the
  response: when it raises, the handler that takes the exception makes a second record.\<close>

definition after_print :: "attempt \<Rightarrow> RequestStats \<Rightarrow> RequestStats" where
  "after_print att stats =
     (case progress_print att of
        Printed \<Rightarrow> stats
      | PrintRaises e end_time \<Rightarrow> handle_exception stats (start_time att) e end_time)"

text \<open>
  \<^verbatim>\<open>make_request(session, base_url, stats, min_id, max_id)\<close>. The session is modelled by
  the list of the URLs requested through it so far. \<^verbatim>\<open>random.randint\<close> stands before the
  \<^verbatim>\<open>try\<close>: its exception leaves the function, and nothing has been mutated then. An
  exception of the \<^verbatim>\<open>print\<close> in the \<^verbatim>\<open>try\<close> block reaches the second handler (or the first,
  by its class), which calls \<^verbatim>\<open>add_failure\<close> on the object that already has the record of
  the response.
\<close>

definition make_request ::
  "attempt \<Rightarrow> string list \<Rightarrow> string \<Rightarrow> RequestStats \<Rightarrow> int \<Rightarrow> int
     \<Rightarrow> raised + (string list \<times> RequestStats)" where
  "make_request att session base_url stats min_id max_id =
     (case randint min_id max_id (draw att) of
        Inl e \<Rightarrow> Inl e
      | Inr user_id \<Rightarrow>
          (let url = base_url @ ''/user?id='' @ str_int user_id
           in Inr (session @ [url],
                (case get_result att of
                   Response status end_time body \<Rightarrow>
                     (let response_time = end_time - start_time att
                      in (case body of
                            Text content read_time \<Rightarrow>
                              if status = 200
                              then after_print att (add_success stats response_time)
                              else (let error_msg =
                                          ''HTTP '' @ str_int status @ '': '' @ take 100 content
                                    in after_print att
                                         (add_failure stats error_msg response_time))
                          | TextRaises e end_time' \<Rightarrow>
                              handle_exception stats (start_time att) e end_time'))
                 | GetRaises e end_time \<Rightarrow>
                     handle_exception stats (start_time att) e end_time))))"

section \<open>The batch: \<^verbatim>\<open>run_concurrent_requests\<close>\<close>

text \<open>
  Every task of the batch is one call of \<^verbatim>\<open>bounded_request\<close>:
  \<^verbatim>\<open>async with semaphore: await make_request(...)\<close>. A task is \<open>Pending\<close> until it has
  acquired the semaphore, \<open>InRequest\<close> while \<^verbatim>\<open>make_request\<close> runs, \<open>Leaving\<close> when
  \<^verbatim>\<open>make_request\<close> has returned or raised and the semaphore is not yet released, and
  \<open>Done\<close> after the release.
\<close>

datatype task = Pending | InRequest | Leaving | Done

text \<open>The state of a batch: the counter of the semaphore, the tasks, the shared statistics
  object, and the URLs requested through the shared session.\<close>

record batch =
  semaphore :: nat
  tasks :: "task list"
  stats :: RequestStats
  session :: "string list"

text \<open>
  Modelled from the spec: the Concurrency Limiter (\<^verbatim>\<open>asyncio.Semaphore\<close>, a class of
  Python's standard library, not of this repository). It is a counter that starts at the
  concurrency; an acquisition takes one unit and suspends the caller while the counter is
  0; a release gives one unit back and never blocks.

  The event loop runs one task at a time, up to its next suspension point. The steps of
  task \<open>i\<close>, as \<^verbatim>\<open>bounded_request\<close> orders them: it acquires the semaphore (a step only
  while the counter is positive), \<^verbatim>\<open>make_request\<close> runs (its effect on the shared object
  is one method call, which nothing interleaves, and a second one when the \<^verbatim>\<open>print\<close> of
  the \<^verbatim>\<open>try\<close> block raises; the model makes both in one step, and calls of other tasks
  between the two would change the order of the lists only; an exception that leaves
  \<^verbatim>\<open>make_request\<close> leaves the \<^verbatim>\<open>async with\<close> block too), it releases the semaphore.
\<close>

datatype action = Acquire nat | Execute nat | Release nat

definition step ::
  "(nat \<Rightarrow> attempt) \<Rightarrow> string \<Rightarrow> int \<Rightarrow> int \<Rightarrow> action \<Rightarrow> batch \<Rightarrow> batch option" where
  "step env base_url min_id max_id a b =
     (case a of
        Acquire i \<Rightarrow>
          if i < length (tasks b) \<and> tasks b ! i = Pending \<and> semaphore b > 0
          then Some (b\<lparr>semaphore := semaphore b - 1, tasks := (tasks b)[i := InRequest]\<rparr>)
          else None
      | Execute i \<Rightarrow>
          if i < length (tasks b) \<and> tasks b ! i = InRequest
          then (case make_request (env i) (session b) base_url (stats b) min_id max_id of
                  Inl e \<Rightarrow> Some (b\<lparr>tasks := (tasks b)[i := Leaving]\<rparr>)
                | Inr (session', stats') \<Rightarrow>
                    Some (b\<lparr>tasks := (tasks b)[i := Leaving],
                            stats := stats', session := session'\<rparr>))
          else None
      | Release i \<Rightarrow>
          if i < length (tasks b) \<and> tasks b ! i = Leaving
          then Some (b\<lparr>semaphore := semaphore b + 1, tasks := (tasks b)[i := Done]\<rparr>)
          else None)"

text \<open>An execution is a list of steps, each possible in the state it meets.\<close>

fun exec ::
  "(nat \<Rightarrow> attempt) \<Rightarrow> string \<Rightarrow> int \<Rightarrow> int \<Rightarrow> action list \<Rightarrow> batch \<Rightarrow> batch option" where
  "exec env base_url min_id max_id [] b = Some b"
| "exec env base_url min_id max_id (a # as) b =
     (case step env base_url min_id max_id a b of
        None \<Rightarrow> None
      | Some b' \<Rightarrow> exec env base_url min_id max_id as b')"

text \<open>A task holds the semaphore from its acquisition to its release.\<close>

fun holding :: "task \<Rightarrow> bool" where
  "holding Pending = False"
| "holding InRequest = True"
| "holding Leaving = True"
| "holding Done = False"

definition holders :: "batch \<Rightarrow> nat" where
  "holders b = length (filter holding (tasks b))"

text \<open>The tasks whose call of \<^verbatim>\<open>make_request\<close> is over.\<close>

fun returned :: "task \<Rightarrow> bool" where
  "returned Pending = False"
| "returned InRequest = False"
| "returned Leaving = True"
| "returned Done = True"

text \<open>One execution of a batch of \<open>n\<close> tasks: each task runs to its end before the next
  one starts.\<close>

definition one_by_one :: "nat \<Rightarrow> nat \<Rightarrow> action list" where
  "one_by_one m n = concat (map (\<lambda>i. [Acquire i, Execute i, Release i]) [m..<m + n])"

text \<open>The state in which \<^verbatim>\<open>asyncio.gather\<close> starts: a fresh statistics object, the
  semaphore at the concurrency, \<^verbatim>\<open>num_requests\<close> tasks (none when \<^verbatim>\<open>range(num_requests)\<close>
  is empty).\<close>

definition batch_init :: "int \<Rightarrow> int \<Rightarrow> batch" where
  "batch_init num_requests concurrency =
     \<lparr>semaphore = nat concurrency,
      tasks = replicate (nat num_requests) Pending,
      stats = RequestStats_init,
      session = []\<rparr>"

text \<open>
  \<^verbatim>\<open>run_concurrent_requests(base_url, num_requests, concurrency, min_id, max_id)\<close>, along
  the execution \<open>sched\<close> that the event loop chooses. \<^verbatim>\<open>asyncio.Semaphore\<close> raises
  \<^verbatim>\<open>ValueError\<close> on a negative value. \<^verbatim>\<open>asyncio.gather\<close> returns when every task is done;
  with \<^verbatim>\<open>return_exceptions=True\<close> an exception that left a task is not raised again. The
  result is \<open>None\<close> when \<open>sched\<close> is not an execution of the batch up to that point.
\<close>

definition run_concurrent_requests ::
  "(nat \<Rightarrow> attempt) \<Rightarrow> action list \<Rightarrow> string \<Rightarrow> int \<Rightarrow> int \<Rightarrow> int \<Rightarrow> int
     \<Rightarrow> (raised + (string list \<times> RequestStats)) option" where
  "run_concurrent_requests env sched base_url num_requests concurrency min_id max_id =
     (if concurrency < 0 then Some (Inl SemaphoreValueError)
      else (case exec env base_url min_id max_id sched (batch_init num_requests concurrency) of
              None \<Rightarrow> None
            | Some b \<Rightarrow>
                if list_all (\<lambda>t. t = Done) (tasks b) then Some (Inr (session b, stats b))
                else None))"

text \<open>An environment for examples: the first task gets a 200 after one second, every other
  task a 404 after half a second.\<close>

definition example_env :: "nat \<Rightarrow> attempt" where
  "example_env i =
     (if i = 0
      then \<lparr>draw = 7, start_time = 10, get_result = Response 200 11 (Text ''ok'' 12),
            progress_print = Printed\<rparr>
      else \<lparr>draw = 3, start_time = 10,
            get_result = Response 404 (21 / 2) (Text ''no such user'' 12),
            progress_print = Printed\<rparr>)"

section \<open>The entry point: \<^verbatim>\<open>main\<close>\<close>

record Args =
  url :: string
  requests :: int
  concurrency :: int
  min_id :: int
  max_id :: int
  json_output :: bool

text \<open>What \<^verbatim>\<open>main\<close> prints before it returns: one of the three messages of the argument
  check, the summary of the batch (as JSON or as a report, both read from
  \<^verbatim>\<open>get_summary\<close>), or the message of the handler for an exception of the batch.\<close>

datatype config_error = RequestsNotPositive | ConcurrencyNotPositive | MinIdNotBelowMaxId

datatype printed = ConfigError config_error | Report Summary | ErrorMessage raised

text \<open>\<^verbatim>\<open>main()\<close>, after the arguments are parsed: what is printed, and the URLs requested.\<close>

definition main ::
  "(nat \<Rightarrow> attempt) \<Rightarrow> action list \<Rightarrow> Args \<Rightarrow> (printed \<times> string list) option" where
  "main env sched args =
     (if requests args \<le> 0 then Some (ConfigError RequestsNotPositive, [])
      else if concurrency args \<le> 0 then Some (ConfigError ConcurrencyNotPositive, [])
      else if min_id args \<ge> max_id args then Some (ConfigError MinIdNotBelowMaxId, [])
      else (case run_concurrent_requests env sched (url args) (requests args)
                   (concurrency args) (min_id args) (max_id args) of
              None \<Rightarrow> None
            | Some (Inl e) \<Rightarrow> Some (ErrorMessage e, [])
            | Some (Inr (session', stats')) \<Rightarrow> Some (Report (get_summary stats'), session')))"

section \<open>Facts about the statistics object\<close>

lemma py_min_Min: "xs \<noteq> [] \<Longrightarrow> py_min xs = Min (set xs)"
  by (cases xs) (simp_all add: Min.set_eq_fold [symmetric])

lemma py_max_Max: "xs \<noteq> [] \<Longrightarrow> py_max xs = Max (set xs)"
  by (cases xs) (simp_all add: Max.set_eq_fold [symmetric])

lemma py_round_grid: "\<exists>k::int. py_round x n = of_int k / 10 ^ n"
  unfolding py_round_def Let_def by blast

lemma py_round_close: "\<bar>py_round x n - x\<bar> \<le> 1 / (2 * 10 ^ n)"
proof -
  define p :: real where "p = 10 ^ n"
  define y where "y = x * p"
  define f where "f = \<lfloor>y\<rfloor>"
  define r :: int where
    "r = (if y - of_int f < 1 / 2 then f else if y - of_int f > 1 / 2 then f + 1
          else if even f then f else f + 1)"
  have p: "p > 0" by (simp add: p_def)
  have fy: "of_int f \<le> y" "y < of_int f + 1"
    unfolding f_def by linarith+
  have "\<bar>of_int r - y\<bar> \<le> 1 / 2"
    using fy unfolding r_def by (auto simp: abs_if)
  moreover have "py_round x n = of_int r / p"
    unfolding py_round_def Let_def r_def f_def y_def p_def by simp
  moreover have "x = y / p" using p by (simp add: y_def)
  ultimately have "\<bar>py_round x n - x\<bar> = \<bar>of_int r - y\<bar> / p"
    using p by (simp add: diff_divide_distrib [symmetric])
  also have "\<dots> \<le> (1 / 2) / p"
    by (rule divide_right_mono) (use \<open>\<bar>of_int r - y\<bar> \<le> 1 / 2\<close> p in simp_all)
  finally show ?thesis by (simp add: p_def)
qed

lemma foldl_ingest_total:
  "total_requests (foldl ingest s rs) = total_requests s + int (length rs)"
proof (induction rs arbitrary: s)
  case Nil
  show ?case by simp
next
  case (Cons r rs)
  show ?case by (cases r) (simp_all add: Cons.IH add_success_def add_failure_def Let_def)
qed

lemma foldl_ingest_successful:
  "successful_requests (foldl ingest s rs)
     = successful_requests s + int (length (filter is_success rs))"
proof (induction rs arbitrary: s)
  case Nil
  show ?case by simp
next
  case (Cons r rs)
  show ?case by (cases r) (simp_all add: Cons.IH add_success_def add_failure_def Let_def)
qed

lemma foldl_ingest_failed:
  "failed_requests (foldl ingest s rs)
     = failed_requests s + int (length (concat (map error_of rs)))"
proof (induction rs arbitrary: s)
  case Nil
  show ?case by simp
next
  case (Cons r rs)
  show ?case by (cases r) (simp_all add: Cons.IH add_success_def add_failure_def Let_def)
qed

lemma foldl_ingest_response_times:
  "response_times (foldl ingest s rs) = response_times s @ concat (map latency_of rs)"
proof (induction rs arbitrary: s)
  case Nil
  show ?case by simp
next
  case (Cons r rs)
  show ?case by (cases r) (simp_all add: Cons.IH add_success_def add_failure_def Let_def)
qed

lemma foldl_ingest_errors:
  "errors (foldl ingest s rs) = errors s @ concat (map error_of rs)"
proof (induction rs arbitrary: s)
  case Nil
  show ?case by simp
next
  case (Cons r rs)
  show ?case by (cases r) (simp_all add: Cons.IH add_success_def add_failure_def Let_def)
qed

lemma mset_concat_map_cong:
  "mset xs = mset ys \<Longrightarrow> mset (concat (map f xs)) = mset (concat (map f ys))"
proof -
  assume eq: "mset xs = mset ys"
  have "mset (concat (map f zs)) = (\<Sum>x\<in>#mset zs. mset (f x))" for zs :: "'a list"
    by (induction zs) simp_all
  then show ?thesis using eq by simp
qed

lemma length_filter_cong:
  "mset xs = mset ys \<Longrightarrow> length (filter P xs) = length (filter P ys)"
proof -
  assume eq: "mset xs = mset ys"
  have "length (filter P zs) = size (filter_mset P (mset zs))" for zs :: "'a list"
    by (metis mset_filter size_mset)
  then show ?thesis using eq by simp
qed

lemma py_round_zero: "py_round 0 n = 0"
  by (simp add: py_round_def)

lemma get_summary_sel:
  "sm_total_requests (get_summary s) = total_requests s"
  "sm_successful_requests (get_summary s) = successful_requests s"
  "sm_failed_requests (get_summary s) = failed_requests s"
  "sm_success_rate (get_summary s) =
     (if total_requests s > 0
      then real_of_int (successful_requests s) / real_of_int (total_requests s) * 100 else 0)"
  "sm_avg_response_time_ms (get_summary s) =
     py_round ((if response_times s \<noteq> []
                then sum_list (response_times s) / real (length (response_times s)) else 0) * 1000) 2"
  "sm_min_response_time_ms (get_summary s) =
     py_round ((if response_times s \<noteq> [] then py_min (response_times s) else 0) * 1000) 2"
  "sm_max_response_time_ms (get_summary s) =
     py_round ((if response_times s \<noteq> [] then py_max (response_times s) else 0) * 1000) 2"
  "sm_errors (get_summary s) = take 10 (errors s)"
  by (simp_all add: get_summary_def)

text \<open>
  C2. Whatever the state of the object, \<open>get_summary\<close> returns the three counts as they
  are; the success rate \<open>successful / total * 100\<close> when the total is positive and 0
  otherwise (no count of a reachable object is negative); 0 for the three latency fields
  when no latency is recorded, and otherwise the average, the least and the greatest of
  the recorded latencies, times 1000 (milliseconds), as \<^verbatim>\<open>round(_, 2)\<close> returns them;
  and the first 10 error messages. After the calls of a list of outcomes on a fresh
  object, these are the messages of the first 10 failures of the list, in its order.
\<close>

theorem get_summary_fields:
  "sm_total_requests (get_summary s) = total_requests s
   \<and> sm_successful_requests (get_summary s) = successful_requests s
   \<and> sm_failed_requests (get_summary s) = failed_requests s
   \<and> sm_success_rate (get_summary s) =
       (if total_requests s > 0
        then real_of_int (successful_requests s) / real_of_int (total_requests s) * 100
        else 0)
   \<and> (response_times s = [] \<longrightarrow>
         sm_avg_response_time_ms (get_summary s) = 0
         \<and> sm_min_response_time_ms (get_summary s) = 0
         \<and> sm_max_response_time_ms (get_summary s) = 0)
   \<and> (response_times s \<noteq> [] \<longrightarrow>
         sm_avg_response_time_ms (get_summary s) =
           py_round (sum_list (response_times s) / real (length (response_times s)) * 1000) 2
         \<and> sm_min_response_time_ms (get_summary s) =
             py_round (Min (set (response_times s)) * 1000) 2
         \<and> sm_max_response_time_ms (get_summary s) =
             py_round (Max (set (response_times s)) * 1000) 2)
   \<and> sm_errors (get_summary s) = take 10 (errors s)
   \<and> sm_errors (get_summary (ingest_all rs)) = take 10 (concat (map error_of rs))"
proof -
  have "errors (ingest_all rs) = concat (map error_of rs)"
    by (simp add: ingest_all_def foldl_ingest_errors RequestStats_init_def)
  then show ?thesis
    by (simp add: get_summary_sel py_round_zero py_min_Min py_max_Max)
qed

text \<open>One success of 250 ms, one failure of 500 ms, one failure with no latency.\<close>

theorem get_summary_fields_witness:
  "sm_total_requests (get_summary (ingest_all [Success (1/4), Failure ''HTTP 500: boom'' (1/2), Failure ''Exception: '' 0])) = 3
   \<and> sm_successful_requests (get_summary (ingest_all [Success (1/4), Failure ''HTTP 500: boom'' (1/2), Failure ''Exception: '' 0])) = 1
   \<and> sm_failed_requests (get_summary (ingest_all [Success (1/4), Failure ''HTTP 500: boom'' (1/2), Failure ''Exception: '' 0])) = 2
   \<and> sm_success_rate (get_summary (ingest_all [Success (1/4), Failure ''HTTP 500: boom'' (1/2), Failure ''Exception: '' 0])) = 100 / 3
   \<and> sm_avg_response_time_ms (get_summary (ingest_all [Success (1/4), Failure ''HTTP 500: boom'' (1/2), Failure ''Exception: '' 0])) = 375
   \<and> sm_min_response_time_ms (get_summary (ingest_all [Success (1/4), Failure ''HTTP 500: boom'' (1/2), Failure ''Exception: '' 0])) = 250
   \<and> sm_max_response_time_ms (get_summary (ingest_all [Success (1/4), Failure ''HTTP 500: boom'' (1/2), Failure ''Exception: '' 0])) = 500
   \<and> sm_errors (get_summary (ingest_all [Success (1/4), Failure ''HTTP 500: boom'' (1/2), Failure ''Exception: '' 0])) = [''HTTP 500: boom'', ''Exception: '']
   \<and> sm_avg_response_time_ms (get_summary RequestStats_init) = 0"
proof -
  let ?s = "ingest_all [Success (1/4), Failure ''HTTP 500: boom'' (1/2), Failure ''Exception: '' 0]"
  have s: "?s = \<lparr>total_requests = 3, successful_requests = 1, failed_requests = 2,
                 response_times = [1/4, 1/2], errors = [''HTTP 500: boom'', ''Exception: '']\<rparr>"
    by (simp add: ingest_all_def RequestStats_init_def add_success_def add_failure_def)
  have r: "py_round 375 2 = 375" "py_round 250 2 = 250" "py_round 500 2 = 500"
    by (simp_all add: py_round_def)
  have i: "response_times RequestStats_init = []"
    by (simp add: RequestStats_init_def)
  show ?thesis
    using get_summary_fields [of ?s "[]"] get_summary_fields [of RequestStats_init "[]"]
    unfolding s by (simp add: r i)
qed

text \<open>
  C10. Each of the three latency fields of the summary is \<^verbatim>\<open>round(v * 1000, 2)\<close>, where
  \<open>v\<close> is the value in seconds (the average, the least or the greatest recorded latency,
  or 0 when none is recorded): a whole number of hundredths of a millisecond, at most
  half a hundredth away from \<open>v * 1000\<close>.
\<close>

theorem get_summary_rounding:
  "sm_avg_response_time_ms (get_summary s) =
     py_round ((if response_times s \<noteq> []
                then sum_list (response_times s) / real (length (response_times s)) else 0) * 1000) 2
   \<and> sm_min_response_time_ms (get_summary s) =
       py_round ((if response_times s \<noteq> [] then py_min (response_times s) else 0) * 1000) 2
   \<and> sm_max_response_time_ms (get_summary s) =
       py_round ((if response_times s \<noteq> [] then py_max (response_times s) else 0) * 1000) 2
   \<and> (\<exists>k::int. sm_avg_response_time_ms (get_summary s) = of_int k / 100)
   \<and> (\<exists>k::int. sm_min_response_time_ms (get_summary s) = of_int k / 100)
   \<and> (\<exists>k::int. sm_max_response_time_ms (get_summary s) = of_int k / 100)
   \<and> \<bar>sm_avg_response_time_ms (get_summary s)
        - (if response_times s \<noteq> []
           then sum_list (response_times s) / real (length (response_times s)) else 0) * 1000\<bar>
       \<le> 1 / 200
   \<and> \<bar>sm_min_response_time_ms (get_summary s)
        - (if response_times s \<noteq> [] then py_min (response_times s) else 0) * 1000\<bar> \<le> 1 / 200
   \<and> \<bar>sm_max_response_time_ms (get_summary s)
        - (if response_times s \<noteq> [] then py_max (response_times s) else 0) * 1000\<bar> \<le> 1 / 200"
proof -
  have grid: "\<exists>k::int. py_round x 2 = of_int k / 100" for x
    using py_round_grid [of x 2] by simp
  have close: "\<bar>py_round x 2 - x\<bar> \<le> 1 / 200" for x
    using py_round_close [of x 2] by simp
  show ?thesis
    unfolding get_summary_sel by (intro conjI refl grid close)
qed

text \<open>Latencies of 1.25 ms and 0.625 ms: the average 0.9375 is rounded up to 0.94, the
  least, half way between 0.62 and 0.63, goes to the even 0.62.\<close>

theorem get_summary_rounding_witness:
  "sm_avg_response_time_ms (get_summary (ingest_all [Success (1/800), Success (1/1600)])) = 47 / 50
   \<and> sm_min_response_time_ms (get_summary (ingest_all [Success (1/800), Success (1/1600)])) = 31 / 50
   \<and> sm_max_response_time_ms (get_summary (ingest_all [Success (1/800), Success (1/1600)])) = 5 / 4"
proof -
  let ?s = "ingest_all [Success (1/800), Success (1/1600)]"
  have s: "response_times ?s = [1/800, 1/1600]"
    by (simp add: ingest_all_def RequestStats_init_def add_success_def)
  have r: "py_round (15 / 16) 2 = 47 / 50" "py_round (5 / 8) 2 = 31 / 50"
    "py_round (5 / 4) 2 = 5 / 4"
    by (simp_all add: py_round_def Let_def)
  show ?thesis
    using get_summary_rounding [of ?s] by (simp add: s r)
qed

lemma init_fields:
  "total_requests RequestStats_init = 0"
  "successful_requests RequestStats_init = 0"
  "failed_requests RequestStats_init = 0"
  "response_times RequestStats_init = []"
  "errors RequestStats_init = []"
  by (simp_all add: RequestStats_init_def)

lemma ingest_all_fields:
  "total_requests (ingest_all rs) = int (length rs)"
  "successful_requests (ingest_all rs) = int (length (filter is_success rs))"
  "failed_requests (ingest_all rs) = int (length (concat (map error_of rs)))"
  "response_times (ingest_all rs) = concat (map latency_of rs)"
  "errors (ingest_all rs) = concat (map error_of rs)"
  by (simp_all add: ingest_all_def init_fields foldl_ingest_total foldl_ingest_successful
      foldl_ingest_failed foldl_ingest_response_times foldl_ingest_errors)

text \<open>
  C3. The total is the sum of the successes and the failures: in the constructor's state,
  after \<open>add_success\<close> and after \<open>add_failure\<close> whenever it was so before the call, and
  therefore in every reachable state of the object.
\<close>

theorem counts_invariant:
  "(total_requests RequestStats_init
      = successful_requests RequestStats_init + failed_requests RequestStats_init)
   \<and> (\<forall>s t. total_requests s = successful_requests s + failed_requests s \<longrightarrow>
        total_requests (add_success s t)
          = successful_requests (add_success s t) + failed_requests (add_success s t))
   \<and> (\<forall>s e t. total_requests s = successful_requests s + failed_requests s \<longrightarrow>
        total_requests (add_failure s e t)
          = successful_requests (add_failure s e t) + failed_requests (add_failure s e t))
   \<and> (\<forall>r. reachable r \<longrightarrow> total_requests r = successful_requests r + failed_requests r)"
proof (intro conjI allI impI)
  show "total_requests RequestStats_init
     = successful_requests RequestStats_init + failed_requests RequestStats_init"
    by (simp add: init_fields)
next
  fix s :: RequestStats and t
  assume "total_requests s = successful_requests s + failed_requests s"
  then show "total_requests (add_success s t)
       = successful_requests (add_success s t) + failed_requests (add_success s t)"
    by (simp add: add_success_def)
next
  fix s :: RequestStats and e t
  assume "total_requests s = successful_requests s + failed_requests s"
  then show "total_requests (add_failure s e t)
       = successful_requests (add_failure s e t) + failed_requests (add_failure s e t)"
    by (simp add: add_failure_def Let_def)
next
  fix r
  assume "reachable r"
  then show "total_requests r = successful_requests r + failed_requests r"
  proof (induction rule: reachable.induct)
    case reachable_init
    show ?case by (simp add: init_fields)
  next
    case (reachable_success s t)
    then show ?case by (simp add: add_success_def)
  next
    case (reachable_failure s e t)
    then show ?case by (simp add: add_failure_def Let_def)
  qed
qed

theorem counts_invariant_witness:
  "reachable (add_failure (add_success RequestStats_init (1/4)) ''HTTP 500: boom'' (1/2))
   \<and> total_requests (add_failure (add_success RequestStats_init (1/4)) ''HTTP 500: boom'' (1/2)) = 2
   \<and> successful_requests (add_failure (add_success RequestStats_init (1/4)) ''HTTP 500: boom'' (1/2)) = 1
   \<and> failed_requests (add_failure (add_success RequestStats_init (1/4)) ''HTTP 500: boom'' (1/2)) = 1"
proof -
  let ?s = "add_failure (add_success RequestStats_init (1/4)) ''HTTP 500: boom'' (1/2)"
  have r: "reachable ?s"
    by (intro reachable.intros)
  from counts_invariant r
  have "total_requests ?s = successful_requests ?s + failed_requests ?s"
    by blast
  moreover have "successful_requests ?s = 1" "failed_requests ?s = 1"
    by (simp_all add: RequestStats_init_def add_success_def add_failure_def Let_def)
  ultimately show ?thesis using r by simp
qed

section \<open>Facts about the summary on floats\<close>

text \<open>The value of \<open>fl\<close> at a number between two powers of two.\<close>

lemma fl_eval:
  assumes "2 powi e \<le> \<bar>x\<bar>" and "\<bar>x\<bar> < 2 powi (e + 1)" and "- 1022 \<le> e"
    and "of_int (round_half_even (x / 2 powi (e - 52))) * 2 powi (e - 52) = y"
  shows "fl x = y"
proof -
  have "(0::real) < 2 powi e"
    by (rule zero_less_power_int) simp
  with assms(1) have pos: "0 < \<bar>x\<bar>"
    by linarith
  have p: "(2::real) powr real_of_int k = 2 powi k" for k
    by (simp add: powr_real_of_int')
  have "2 powr real_of_int e \<le> \<bar>x\<bar>" "\<bar>x\<bar> < 2 powr real_of_int (e + 1)"
    using assms(1,2) unfolding p by simp_all
  then have "\<lfloor>log 2 \<bar>x\<bar>\<rfloor> = e"
    using floor_log_eq_powr_iff [of "\<bar>x\<bar>" 2 e] pos by simp
  with assms(3,4) pos show ?thesis
    by (simp add: fl_def Let_def max_def)
qed

text \<open>\<open>py_round\<close> rounds as \<open>round_half_even\<close> does, at the given decimal place.\<close>

lemma py_round_half_even:
  "py_round x n = of_int (round_half_even (x * 10 ^ n)) / 10 ^ n"
  by (simp add: py_round_def round_half_even_def Let_def)

text \<open>One step of the sum, by the greater of the running sum and the new term, and its
  end.\<close>

lemma neumaier_step_ge:
  assumes "\<bar>x\<bar> \<le> \<bar>f\<bar>" and "fl (f + x) = t" and "fl (f - t) = u" and "fl (u + x) = v"
    and "fl (c + v) = c'"
  shows "neumaier f c (x # xs) = neumaier t c' xs"
  using assms by (simp add: Let_def)

lemma neumaier_step_lt:
  assumes "\<bar>f\<bar> < \<bar>x\<bar>" and "fl (f + x) = t" and "fl (x - t) = u" and "fl (u + f) = v"
    and "fl (c + v) = c'"
  shows "neumaier f c (x # xs) = neumaier t c' xs"
  using assms by (simp add: Let_def)

lemma neumaier_end:
  assumes "c \<noteq> 0" and "fl (f + c) = r"
  shows "neumaier f c [] = r"
  using assms by simp

lemma neumaier_end_zero: "neumaier f 0 [] = f"
  by simp

lemma get_summary_float_sel:
  "sm_total_requests (get_summary_float s) = total_requests s"
  "sm_successful_requests (get_summary_float s) = successful_requests s"
  "sm_failed_requests (get_summary_float s) = failed_requests s"
  "sm_success_rate (get_summary_float s) =
     (if total_requests s > 0
      then fl (fl (real_of_int (successful_requests s) / real_of_int (total_requests s)) * 100)
      else 0)"
  "sm_avg_response_time_ms (get_summary_float s) =
     fl (py_round (fl ((if response_times s \<noteq> []
                        then fl (py_sum (response_times s) / real (length (response_times s)))
                        else 0) * 1000)) 2)"
  "sm_min_response_time_ms (get_summary_float s) =
     fl (py_round (fl ((if response_times s \<noteq> [] then py_min (response_times s) else 0)
                       * 1000)) 2)"
  "sm_max_response_time_ms (get_summary_float s) =
     fl (py_round (fl ((if response_times s \<noteq> [] then py_max (response_times s) else 0)
                       * 1000)) 2)"
  "sm_errors (get_summary_float s) = take 10 (errors s)"
  by (simp_all add: get_summary_float_def)

text \<open>The rounding touches the four fields that are floats, and no other.\<close>

lemma get_summary_float_counts:
  "sm_total_requests (get_summary_float s) = sm_total_requests (get_summary s)"
  "sm_successful_requests (get_summary_float s) = sm_successful_requests (get_summary s)"
  "sm_failed_requests (get_summary_float s) = sm_failed_requests (get_summary s)"
  "sm_errors (get_summary_float s) = sm_errors (get_summary s)"
  by (simp_all add: get_summary_float_sel get_summary_sel)

lemma avg_ms_eval:
  assumes "response_times st = rts" and "rts \<noteq> []" and "py_sum rts = s"
    and "fl (s / real (length rts)) = a" and "fl (a * 1000) = m" and "py_round m 2 = p"
    and "fl p = y"
  shows "sm_avg_response_time_ms (get_summary_float st) = y"
  using assms by (simp add: get_summary_float_sel)

text \<open>The sum and the average of the latencies 1.94802, \<open>2 ^ - 53\<close>, \<open>2 ^ - 106\<close> and
  \<open>2 ^ - 107\<close>, in this order and with the three small terms first, operation by
  operation.\<close>

lemma py_sum_first_order:
  "py_sum [(4386551073055137 / 2 ^ 51), (1 / 2 ^ 53), (1 / 2 ^ 106), (1 / 2 ^ 107)] = (4386551073055137 / 2 ^ 51)"
proof -
  have t1: "fl ((4386551073055137 / 2 ^ 51) + (1 / 2 ^ 53)) = (4386551073055137 / 2 ^ 51)"
    by (rule fl_eval [where e = 0])
       (simp_all add: round_half_even_def Let_def power_int_minus_divide)
  have u1: "fl ((4386551073055137 / 2 ^ 51) - (4386551073055137 / 2 ^ 51)) = 0"
    by (simp add: fl_def)
  have v1: "fl (0 + (1 / 2 ^ 53)) = (1 / 2 ^ 53)"
    by (rule fl_eval [where e = "- 53"])
       (simp_all add: round_half_even_def Let_def power_int_minus_divide)
  have c1: "fl (0 + (1 / 2 ^ 53)) = (1 / 2 ^ 53)"
    by (rule fl_eval [where e = "- 53"])
       (simp_all add: round_half_even_def Let_def power_int_minus_divide)
  have o1: "\<bar>(1 / 2 ^ 53) :: real\<bar> \<le> \<bar>(4386551073055137 / 2 ^ 51)\<bar>"
    by simp
  have t2: "fl ((4386551073055137 / 2 ^ 51) + (1 / 2 ^ 106)) = (4386551073055137 / 2 ^ 51)"
    by (rule fl_eval [where e = 0])
       (simp_all add: round_half_even_def Let_def power_int_minus_divide)
  have u2: "fl ((4386551073055137 / 2 ^ 51) - (4386551073055137 / 2 ^ 51)) = 0"
    by (simp add: fl_def)
  have v2: "fl (0 + (1 / 2 ^ 106)) = (1 / 2 ^ 106)"
    by (rule fl_eval [where e = "- 106"])
       (simp_all add: round_half_even_def Let_def power_int_minus_divide)
  have c2: "fl ((1 / 2 ^ 53) + (1 / 2 ^ 106)) = (1 / 2 ^ 53)"
    by (rule fl_eval [where e = "- 53"])
       (simp_all add: round_half_even_def Let_def power_int_minus_divide)
  have o2: "\<bar>(1 / 2 ^ 106) :: real\<bar> \<le> \<bar>(4386551073055137 / 2 ^ 51)\<bar>"
    by simp
  have t3: "fl ((4386551073055137 / 2 ^ 51) + (1 / 2 ^ 107)) = (4386551073055137 / 2 ^ 51)"
    by (rule fl_eval [where e = 0])
       (simp_all add: round_half_even_def Let_def power_int_minus_divide)
  have u3: "fl ((4386551073055137 / 2 ^ 51) - (4386551073055137 / 2 ^ 51)) = 0"
    by (simp add: fl_def)
  have v3: "fl (0 + (1 / 2 ^ 107)) = (1 / 2 ^ 107)"
    by (rule fl_eval [where e = "- 107"])
       (simp_all add: round_half_even_def Let_def power_int_minus_divide)
  have c3: "fl ((1 / 2 ^ 53) + (1 / 2 ^ 107)) = (1 / 2 ^ 53)"
    by (rule fl_eval [where e = "- 53"])
       (simp_all add: round_half_even_def Let_def power_int_minus_divide)
  have o3: "\<bar>(1 / 2 ^ 107) :: real\<bar> \<le> \<bar>(4386551073055137 / 2 ^ 51)\<bar>"
    by simp
  have r: "fl ((4386551073055137 / 2 ^ 51) + (1 / 2 ^ 53)) = (4386551073055137 / 2 ^ 51)"
    by (rule fl_eval [where e = 0])
       (simp_all add: round_half_even_def Let_def power_int_minus_divide)
  have nz: "(1 / 2 ^ 53) \<noteq> (0 :: real)"
    by simp
  have "py_sum [(4386551073055137 / 2 ^ 51), (1 / 2 ^ 53), (1 / 2 ^ 106), (1 / 2 ^ 107)] = neumaier (4386551073055137 / 2 ^ 51) 0 [(1 / 2 ^ 53), (1 / 2 ^ 106), (1 / 2 ^ 107)]"
    by (simp only: py_sum_def list.case)
  also have "\<dots> = neumaier (4386551073055137 / 2 ^ 51) (1 / 2 ^ 53) [(1 / 2 ^ 106), (1 / 2 ^ 107)]"
    by (rule neumaier_step_ge [OF o1 t1 u1 v1 c1])
  also have "\<dots> = neumaier (4386551073055137 / 2 ^ 51) (1 / 2 ^ 53) [(1 / 2 ^ 107)]"
    by (rule neumaier_step_ge [OF o2 t2 u2 v2 c2])
  also have "\<dots> = neumaier (4386551073055137 / 2 ^ 51) (1 / 2 ^ 53) []"
    by (rule neumaier_step_ge [OF o3 t3 u3 v3 c3])
  also have "\<dots> = (4386551073055137 / 2 ^ 51)"
    by (rule neumaier_end [OF nz r])
  finally show ?thesis .
qed

lemma py_sum_second_order:
  "py_sum [(1 / 2 ^ 106), (1 / 2 ^ 107), (1 / 2 ^ 53), (4386551073055137 / 2 ^ 51)] = (8773102146110275 / 2 ^ 52)"
proof -
  have t1: "fl ((1 / 2 ^ 106) + (1 / 2 ^ 107)) = (3 / 2 ^ 107)"
    by (rule fl_eval [where e = "- 106"])
       (simp_all add: round_half_even_def Let_def power_int_minus_divide)
  have u1: "fl ((1 / 2 ^ 106) - (3 / 2 ^ 107)) = (- 1 / 2 ^ 107)"
    by (rule fl_eval [where e = "- 107"])
       (simp_all add: round_half_even_def Let_def power_int_minus_divide)
  have v1: "fl ((- 1 / 2 ^ 107) + (1 / 2 ^ 107)) = 0"
    by (simp add: fl_def)
  have c1: "fl (0 + 0) = 0"
    by (simp add: fl_def)
  have o1: "\<bar>(1 / 2 ^ 107) :: real\<bar> \<le> \<bar>(1 / 2 ^ 106)\<bar>"
    by simp
  have t2: "fl ((3 / 2 ^ 107) + (1 / 2 ^ 53)) = (4503599627370497 / 2 ^ 105)"
    by (rule fl_eval [where e = "- 53"])
       (simp_all add: round_half_even_def Let_def power_int_minus_divide)
  have u2: "fl ((1 / 2 ^ 53) - (4503599627370497 / 2 ^ 105)) = (- 1 / 2 ^ 105)"
    by (rule fl_eval [where e = "- 105"])
       (simp_all add: round_half_even_def Let_def power_int_minus_divide)
  have v2: "fl ((- 1 / 2 ^ 105) + (3 / 2 ^ 107)) = (- 1 / 2 ^ 107)"
    by (rule fl_eval [where e = "- 107"])
       (simp_all add: round_half_even_def Let_def power_int_minus_divide)
  have c2: "fl (0 + (- 1 / 2 ^ 107)) = (- 1 / 2 ^ 107)"
    by (rule fl_eval [where e = "- 107"])
       (simp_all add: round_half_even_def Let_def power_int_minus_divide)
  have o2: "\<bar>(3 / 2 ^ 107) :: real\<bar> < \<bar>(1 / 2 ^ 53)\<bar>"
    by simp
  have t3: "fl ((4503599627370497 / 2 ^ 105) + (4386551073055137 / 2 ^ 51)) = (8773102146110275 / 2 ^ 52)"
    by (rule fl_eval [where e = 0])
       (simp_all add: round_half_even_def Let_def power_int_minus_divide)
  have u3: "fl ((4386551073055137 / 2 ^ 51) - (8773102146110275 / 2 ^ 52)) = (- 1 / 2 ^ 52)"
    by (rule fl_eval [where e = "- 52"])
       (simp_all add: round_half_even_def Let_def power_int_minus_divide)
  have v3: "fl ((- 1 / 2 ^ 52) + (4503599627370497 / 2 ^ 105)) = (- 4503599627370495 / 2 ^ 105)"
    by (rule fl_eval [where e = "- 54"])
       (simp_all add: round_half_even_def Let_def power_int_minus_divide)
  have c3: "fl ((- 1 / 2 ^ 107) + (- 4503599627370495 / 2 ^ 105)) = (- 4503599627370495 / 2 ^ 105)"
    by (rule fl_eval [where e = "- 54"])
       (simp_all add: round_half_even_def Let_def power_int_minus_divide)
  have o3: "\<bar>(4503599627370497 / 2 ^ 105) :: real\<bar> < \<bar>(4386551073055137 / 2 ^ 51)\<bar>"
    by simp
  have r: "fl ((8773102146110275 / 2 ^ 52) + (- 4503599627370495 / 2 ^ 105)) = (8773102146110275 / 2 ^ 52)"
    by (rule fl_eval [where e = 0])
       (simp_all add: round_half_even_def Let_def power_int_minus_divide)
  have nz: "(- 4503599627370495 / 2 ^ 105) \<noteq> (0 :: real)"
    by simp
  have "py_sum [(1 / 2 ^ 106), (1 / 2 ^ 107), (1 / 2 ^ 53), (4386551073055137 / 2 ^ 51)] = neumaier (1 / 2 ^ 106) 0 [(1 / 2 ^ 107), (1 / 2 ^ 53), (4386551073055137 / 2 ^ 51)]"
    by (simp only: py_sum_def list.case)
  also have "\<dots> = neumaier (3 / 2 ^ 107) 0 [(1 / 2 ^ 53), (4386551073055137 / 2 ^ 51)]"
    by (rule neumaier_step_ge [OF o1 t1 u1 v1 c1])
  also have "\<dots> = neumaier (4503599627370497 / 2 ^ 105) (- 1 / 2 ^ 107) [(4386551073055137 / 2 ^ 51)]"
    by (rule neumaier_step_lt [OF o2 t2 u2 v2 c2])
  also have "\<dots> = neumaier (8773102146110275 / 2 ^ 52) (- 4503599627370495 / 2 ^ 105) []"
    by (rule neumaier_step_lt [OF o3 t3 u3 v3 c3])
  also have "\<dots> = (8773102146110275 / 2 ^ 52)"
    by (rule neumaier_end [OF nz r])
  finally show ?thesis .
qed

lemma avg_ms_first_order:
  "response_times st = [(4386551073055137 / 2 ^ 51), (1 / 2 ^ 53), (1 / 2 ^ 106), (1 / 2 ^ 107)] \<Longrightarrow>
   sm_avg_response_time_ms (get_summary_float st) = 487"
proof -
  have a: "fl ((4386551073055137 / 2 ^ 51) / real (length [(4386551073055137 / 2 ^ 51), (1 / 2 ^ 53), (1 / 2 ^ 106), (1 / 2 ^ 107)])) = (4386551073055137 / 2 ^ 53)"
    by (rule fl_eval [where e = "- 2"])
       (simp_all add: round_half_even_def Let_def power_int_minus_divide)
  have m: "fl ((4386551073055137 / 2 ^ 53) * 1000) = (4283741282280407 / 2 ^ 43)"
    by (rule fl_eval [where e = 8])
       (simp_all add: round_half_even_def Let_def power_int_minus_divide)
  have p: "py_round (4283741282280407 / 2 ^ 43) 2 = 487"
    by (simp add: py_round_def Let_def)
  have y: "fl (487) = 487"
    by (rule fl_eval [where e = 8])
       (simp_all add: round_half_even_def Let_def power_int_minus_divide)
  assume "response_times st = [(4386551073055137 / 2 ^ 51), (1 / 2 ^ 53), (1 / 2 ^ 106), (1 / 2 ^ 107)]"
  then show ?thesis
    by (rule avg_ms_eval [OF _ _ py_sum_first_order a m p y]) simp
qed

lemma avg_ms_second_order:
  "response_times st = [(1 / 2 ^ 106), (1 / 2 ^ 107), (1 / 2 ^ 53), (4386551073055137 / 2 ^ 51)] \<Longrightarrow>
   sm_avg_response_time_ms (get_summary_float st) = (2141892631372759 / 2 ^ 42)"
proof -
  have a: "fl ((8773102146110275 / 2 ^ 52) / real (length [(1 / 2 ^ 106), (1 / 2 ^ 107), (1 / 2 ^ 53), (4386551073055137 / 2 ^ 51)])) = (8773102146110275 / 2 ^ 54)"
    by (rule fl_eval [where e = "- 2"])
       (simp_all add: round_half_even_def Let_def power_int_minus_divide)
  have m: "fl ((8773102146110275 / 2 ^ 54) * 1000) = (8567482564560815 / 2 ^ 44)"
    by (rule fl_eval [where e = 8])
       (simp_all add: round_half_even_def Let_def power_int_minus_divide)
  have p: "py_round (8567482564560815 / 2 ^ 44) 2 = (48701 / 100)"
    by (simp add: py_round_def Let_def)
  have y: "fl ((48701 / 100)) = (2141892631372759 / 2 ^ 42)"
    by (rule fl_eval [where e = 8])
       (simp_all add: round_half_even_def Let_def power_int_minus_divide)
  assume "response_times st = [(1 / 2 ^ 106), (1 / 2 ^ 107), (1 / 2 ^ 53), (4386551073055137 / 2 ^ 51)]"
  then show ?thesis
    by (rule avg_ms_eval [OF _ _ py_sum_second_order a m p y]) simp
qed

text \<open>
  C5, as the code has it. When two lists of outcomes are permutations of each other, the
  summaries after their calls on fresh objects, computed on floats, agree on the three
  counts, the success rate and the least and the greatest latency. Their \<open>errors\<close> fields have the same
  length, and each holds messages of the failures of the lists, no more often than they
  occur there; when there are at most 10 failures, the two fields are permutations of
  each other.
\<close>

theorem summary_permutation:
  assumes "mset rs = mset rs'"
  shows "sm_total_requests (get_summary_float (ingest_all rs))
           = sm_total_requests (get_summary_float (ingest_all rs'))
     \<and> sm_successful_requests (get_summary_float (ingest_all rs))
           = sm_successful_requests (get_summary_float (ingest_all rs'))
     \<and> sm_failed_requests (get_summary_float (ingest_all rs))
           = sm_failed_requests (get_summary_float (ingest_all rs'))
     \<and> sm_success_rate (get_summary_float (ingest_all rs))
           = sm_success_rate (get_summary_float (ingest_all rs'))
     \<and> sm_min_response_time_ms (get_summary_float (ingest_all rs))
           = sm_min_response_time_ms (get_summary_float (ingest_all rs'))
     \<and> sm_max_response_time_ms (get_summary_float (ingest_all rs))
           = sm_max_response_time_ms (get_summary_float (ingest_all rs'))
     \<and> length (sm_errors (get_summary_float (ingest_all rs)))
           = length (sm_errors (get_summary_float (ingest_all rs')))
     \<and> mset (sm_errors (get_summary_float (ingest_all rs)))
           \<subseteq># mset (concat (map error_of rs'))
     \<and> (failed_requests (ingest_all rs) \<le> 10 \<longrightarrow>
           mset (sm_errors (get_summary_float (ingest_all rs)))
             = mset (sm_errors (get_summary_float (ingest_all rs'))))"
proof -
  let ?s = "ingest_all rs" and ?s' = "ingest_all rs'"
  have len: "length rs = length rs'"
    using assms by (rule mset_eq_length)
  have succ: "length (filter is_success rs) = length (filter is_success rs')"
    using assms by (rule length_filter_cong)
  have lat: "mset (response_times ?s) = mset (response_times ?s')"
    unfolding ingest_all_fields using assms by (rule mset_concat_map_cong)
  have err: "mset (errors ?s) = mset (errors ?s')"
    unfolding ingest_all_fields using assms by (rule mset_concat_map_cong)
  have errlen: "length (errors ?s) = length (errors ?s')"
    using err by (rule mset_eq_length)
  have total: "total_requests ?s = total_requests ?s'"
    by (simp add: ingest_all_fields len)
  have successful: "successful_requests ?s = successful_requests ?s'"
    by (simp add: ingest_all_fields succ)
  have failed: "failed_requests ?s = failed_requests ?s'"
    using errlen by (simp add: ingest_all_fields)
  have empty: "response_times ?s = [] \<longleftrightarrow> response_times ?s' = []"
    using lat by (metis mset_zero_iff)
  have setlat: "set (response_times ?s) = set (response_times ?s')"
    using lat by (rule mset_eq_setD)
  have mn: "response_times ?s \<noteq> [] \<Longrightarrow> py_min (response_times ?s) = py_min (response_times ?s')"
    using empty setlat by (simp add: py_min_Min)
  have mx: "response_times ?s \<noteq> [] \<Longrightarrow> py_max (response_times ?s) = py_max (response_times ?s')"
    using empty setlat by (simp add: py_max_Max)
  have sub: "mset (take 10 (errors ?s)) \<subseteq># mset (concat (map error_of rs'))"
  proof -
    have "mset (take 10 (errors ?s)) \<subseteq># mset (errors ?s)"
      by (metis append_take_drop_id mset_append mset_subset_eq_add_left)
    then show ?thesis using err by (simp add: ingest_all_fields)
  qed
  have few: "mset (take 10 (errors ?s)) = mset (take 10 (errors ?s'))"
    if "failed_requests ?s \<le> 10"
  proof -
    have "length (errors ?s) \<le> 10"
      using that by (simp add: ingest_all_fields)
    then show ?thesis using err errlen by simp
  qed
  show ?thesis
    unfolding get_summary_float_sel
    using total successful failed empty mn mx errlen sub few
    by (auto simp: min_def)
qed

text \<open>A success and a failure, in the two orders.\<close>

theorem summary_permutation_witness:
  "mset [Success (1 / 4), Failure ''HTTP 500: boom'' (1 / 2)]
     = mset [Failure ''HTTP 500: boom'' (1 / 2), Success (1 / 4)]
   \<and> failed_requests (ingest_all [Success (1 / 4), Failure ''HTTP 500: boom'' (1 / 2)]) = 1
   \<and> sm_min_response_time_ms
       (get_summary_float (ingest_all [Success (1 / 4), Failure ''HTTP 500: boom'' (1 / 2)]))
     = sm_min_response_time_ms
         (get_summary_float (ingest_all [Failure ''HTTP 500: boom'' (1 / 2), Success (1 / 4)]))
   \<and> mset (sm_errors
       (get_summary_float (ingest_all [Success (1 / 4), Failure ''HTTP 500: boom'' (1 / 2)])))
     = mset (sm_errors
         (get_summary_float (ingest_all [Failure ''HTTP 500: boom'' (1 / 2), Success (1 / 4)])))"
proof -
  have m: "mset [Success (1 / 4), Failure ''HTTP 500: boom'' (1 / 2)]
     = mset [Failure ''HTTP 500: boom'' (1 / 2), Success (1 / 4)]"
    by simp
  have f: "failed_requests (ingest_all [Success (1 / 4), Failure ''HTTP 500: boom'' (1 / 2)]) = 1"
    by (simp add: ingest_all_fields)
  from summary_permutation [OF m] m f show ?thesis
    by simp
qed

text \<open>
  Two inputs on which the summaries differ by more than the order of \<open>errors\<close>.

  Eleven failures: the summary keeps the first ten messages, and the one it leaves out
  depends on the order of the calls.

  Four successes with the latencies 1.94802, \<open>2 ^ - 53\<close>, \<open>2 ^ - 106\<close> and \<open>2 ^ - 107\<close>
  (the first is the float nearest to that decimal). In this order each small term is lost
  in the sum, which is 1.94802, and the average is 487.0 ms; with the small terms first
  they add up before they meet the large one, the sum is the next float, and the average
  is 487.01 ms (the float nearest to it).
\<close>

theorem summary_permutation_counterexample:
  "mset [Failure ''e0'' 1, Failure ''e1'' 1, Failure ''e2'' 1, Failure ''e3'' 1,
         Failure ''e4'' 1, Failure ''e5'' 1, Failure ''e6'' 1, Failure ''e7'' 1,
         Failure ''e8'' 1, Failure ''e9'' 1, Failure ''e10'' 1]
     = mset [Failure ''e10'' 1, Failure ''e0'' 1, Failure ''e1'' 1, Failure ''e2'' 1,
             Failure ''e3'' 1, Failure ''e4'' 1, Failure ''e5'' 1, Failure ''e6'' 1,
             Failure ''e7'' 1, Failure ''e8'' 1, Failure ''e9'' 1]
   \<and> sm_errors (get_summary_float (ingest_all
         [Failure ''e0'' 1, Failure ''e1'' 1, Failure ''e2'' 1, Failure ''e3'' 1,
          Failure ''e4'' 1, Failure ''e5'' 1, Failure ''e6'' 1, Failure ''e7'' 1,
          Failure ''e8'' 1, Failure ''e9'' 1, Failure ''e10'' 1]))
       = [''e0'', ''e1'', ''e2'', ''e3'', ''e4'', ''e5'', ''e6'', ''e7'', ''e8'', ''e9'']
   \<and> sm_errors (get_summary_float (ingest_all
         [Failure ''e10'' 1, Failure ''e0'' 1, Failure ''e1'' 1, Failure ''e2'' 1,
          Failure ''e3'' 1, Failure ''e4'' 1, Failure ''e5'' 1, Failure ''e6'' 1,
          Failure ''e7'' 1, Failure ''e8'' 1, Failure ''e9'' 1]))
       = [''e10'', ''e0'', ''e1'', ''e2'', ''e3'', ''e4'', ''e5'', ''e6'', ''e7'', ''e8'']
   \<and> mset [''e0'', ''e1'', ''e2'', ''e3'', ''e4'', ''e5'', ''e6'', ''e7'', ''e8'', ''e9'']
       \<noteq> mset [''e10'', ''e0'', ''e1'', ''e2'', ''e3'', ''e4'', ''e5'', ''e6'', ''e7'', ''e8'']
   \<and> mset [Success (4386551073055137 / 2 ^ 51), Success (1 / 2 ^ 53),
            Success (1 / 2 ^ 106), Success (1 / 2 ^ 107)]
       = mset [Success (1 / 2 ^ 106), Success (1 / 2 ^ 107),
               Success (1 / 2 ^ 53), Success (4386551073055137 / 2 ^ 51)]
   \<and> sm_avg_response_time_ms (get_summary_float (ingest_all
         [Success (4386551073055137 / 2 ^ 51), Success (1 / 2 ^ 53),
          Success (1 / 2 ^ 106), Success (1 / 2 ^ 107)])) = 487
   \<and> sm_avg_response_time_ms (get_summary_float (ingest_all
         [Success (1 / 2 ^ 106), Success (1 / 2 ^ 107),
          Success (1 / 2 ^ 53), Success (4386551073055137 / 2 ^ 51)]))
       = 2141892631372759 / 2 ^ 42
   \<and> (487 :: real) \<noteq> 2141892631372759 / 2 ^ 42"
proof -
  have "''e9'' \<in># mset [''e0'', ''e1'', ''e2'', ''e3'', ''e4'', ''e5'', ''e6'', ''e7'', ''e8'', ''e9'']"
    by simp
  moreover have "''e9'' \<notin># mset [''e10'', ''e0'', ''e1'', ''e2'', ''e3'', ''e4'', ''e5'', ''e6'', ''e7'', ''e8'']"
    by simp
  ultimately have ne: "mset [''e0'', ''e1'', ''e2'', ''e3'', ''e4'', ''e5'', ''e6'', ''e7'', ''e8'', ''e9'']
       \<noteq> mset [''e10'', ''e0'', ''e1'', ''e2'', ''e3'', ''e4'', ''e5'', ''e6'', ''e7'', ''e8'']"
    by metis
  have r1: "response_times (ingest_all
         [Success (4386551073055137 / 2 ^ 51), Success (1 / 2 ^ 53),
          Success (1 / 2 ^ 106), Success (1 / 2 ^ 107)])
       = [(4386551073055137 / 2 ^ 51), (1 / 2 ^ 53), (1 / 2 ^ 106), (1 / 2 ^ 107)]"
    by (simp add: ingest_all_fields)
  have r2: "response_times (ingest_all
         [Success (1 / 2 ^ 106), Success (1 / 2 ^ 107),
          Success (1 / 2 ^ 53), Success (4386551073055137 / 2 ^ 51)])
       = [(1 / 2 ^ 106), (1 / 2 ^ 107), (1 / 2 ^ 53), (4386551073055137 / 2 ^ 51)]"
    by (simp add: ingest_all_fields)
  have a1: "sm_avg_response_time_ms (get_summary_float (ingest_all
         [Success (4386551073055137 / 2 ^ 51), Success (1 / 2 ^ 53),
          Success (1 / 2 ^ 106), Success (1 / 2 ^ 107)])) = 487"
    by (rule avg_ms_first_order [OF r1])
  have a2: "sm_avg_response_time_ms (get_summary_float (ingest_all
         [Success (1 / 2 ^ 106), Success (1 / 2 ^ 107),
          Success (1 / 2 ^ 53), Success (4386551073055137 / 2 ^ 51)]))
       = 2141892631372759 / 2 ^ 42"
    by (rule avg_ms_second_order [OF r2])
  show ?thesis
    by (intro conjI ne a1 a2) (simp_all add: get_summary_float_sel ingest_all_fields)
qed

section \<open>Facts about the random identifier\<close>

lemma randint_Inr:
  "a \<le> b \<Longrightarrow> randint a b r = Inr (a + int r mod (b - a + 1))"
  by (simp add: randint_def)

lemma randint_range:
  assumes "a \<le> b"
  shows "\<exists>u. randint a b r = Inr u \<and> a \<le> u \<and> u \<le> b"
proof -
  have "0 < b - a + 1"
    using assms by simp
  then have "0 \<le> int r mod (b - a + 1)" "int r mod (b - a + 1) < b - a + 1"
    by (rule pos_mod_sign, rule pos_mod_bound)
  then show ?thesis using assms by (simp add: randint_Inr)
qed

section \<open>Facts about \<^verbatim>\<open>make_request\<close>\<close>

lemma handle_exception_eq:
  "handle_exception st start e end_time =
     add_failure st
       ((if isinstance_ClientError e then ''ClientError: '' else ''Exception: '') @ str e)
       (end_time - start)"
  by (simp add: handle_exception_def Let_def)

lemma add_failure_fields:
  "total_requests (add_failure s e t) = total_requests s + 1"
  "successful_requests (add_failure s e t) = successful_requests s"
  "failed_requests (add_failure s e t) = failed_requests s + 1"
  "errors (add_failure s e t) = errors s @ [e]"
  "response_times (add_failure s e t) =
     (if t > 0 then response_times s @ [t] else response_times s)"
  by (simp_all add: add_failure_def Let_def)

lemma add_success_fields:
  "total_requests (add_success s t) = total_requests s + 1"
  "successful_requests (add_success s t) = successful_requests s + 1"
  "failed_requests (add_success s t) = failed_requests s"
  "errors (add_success s t) = errors s"
  "response_times (add_success s t) = response_times s @ [t]"
  by (simp_all add: add_success_def)

text \<open>What the \<^verbatim>\<open>print\<close> of the \<^verbatim>\<open>try\<close> block does to the object that has the record of the
  response: nothing when it returns, a second record when it raises.\<close>

lemma after_print_Printed:
  "progress_print att = Printed \<Longrightarrow> after_print att st = st"
  by (simp add: after_print_def)

lemma after_print_fields:
  "successful_requests (after_print att st) = successful_requests st"
  "total_requests (after_print att st) =
     total_requests st + (case progress_print att of Printed \<Rightarrow> 0 | PrintRaises e t \<Rightarrow> 1)"
  "failed_requests (after_print att st) =
     failed_requests st + (case progress_print att of Printed \<Rightarrow> 0 | PrintRaises e t \<Rightarrow> 1)"
  "errors (after_print att st) =
     errors st @ (case progress_print att of
                    Printed \<Rightarrow> []
                  | PrintRaises e t \<Rightarrow>
                      [(if isinstance_ClientError e then ''ClientError: '' else ''Exception: '')
                         @ str e])"
  "response_times (after_print att st) =
     response_times st @ (case progress_print att of
                            Printed \<Rightarrow> []
                          | PrintRaises e t \<Rightarrow>
                              if t - start_time att > 0 then [t - start_time att] else [])"
  by (simp_all add: after_print_def handle_exception_eq add_failure_fields
      split: print_result.splits)

lemma make_request_Inr:
  assumes "lo \<le> hi"
  shows "make_request att sess base st lo hi =
     Inr (sess @ [base @ ''/user?id='' @ str_int (lo + int (draw att) mod (hi - lo + 1))],
          (case get_result att of
             Response status end_time body \<Rightarrow>
               (case body of
                  Text content read_time \<Rightarrow>
                    after_print att
                      (if status = 200 then add_success st (end_time - start_time att)
                       else add_failure st
                              (''HTTP '' @ str_int status @ '': '' @ take 100 content)
                              (end_time - start_time att))
                | TextRaises e end_time' \<Rightarrow> handle_exception st (start_time att) e end_time')
           | GetRaises e end_time \<Rightarrow> handle_exception st (start_time att) e end_time))"
  using assms
  by (simp add: make_request_def randint_Inr Let_def split: get_result.splits body_read.splits)

lemma make_request_Inl:
  "hi < lo \<Longrightarrow>
   make_request att sess base st lo hi = Inl RandintValueError"
  by (simp add: make_request_def randint_def)

text \<open>A call of \<open>make_request\<close> that gets past \<^verbatim>\<open>random.randint\<close> requests one URL and makes
  one call of \<open>add_success\<close> or \<open>add_failure\<close>; when the \<^verbatim>\<open>print\<close> of the \<^verbatim>\<open>try\<close> block
  raises, it makes a call of \<open>add_failure\<close> after it.\<close>

lemma make_request_records:
  assumes "lo \<le> hi"
  shows "\<exists>sess' st' st1.
           make_request att sess base st lo hi = Inr (sess', st')
           \<and> length sess' = length sess + 1
           \<and> ((\<exists>t. st1 = add_success st t) \<or> (\<exists>e t. st1 = add_failure st e t))
           \<and> (st' = st1 \<or> (\<exists>e t. st' = add_failure st1 e t))
           \<and> (progress_print att = Printed \<longrightarrow> st' = st1)"
proof (cases "get_result att")
  case (Response status end_time body)
  show ?thesis
  proof (cases body)
    case (Text content read_time)
    define st1 where
      "st1 = (if status = 200 then add_success st (end_time - start_time att)
              else add_failure st (''HTTP '' @ str_int status @ '': '' @ take 100 content)
                     (end_time - start_time att))"
    have 1: "(\<exists>t. st1 = add_success st t) \<or> (\<exists>e t. st1 = add_failure st e t)"
      unfolding st1_def by auto
    have 2: "after_print att st1 = st1 \<or> (\<exists>e t. after_print att st1 = add_failure st1 e t)"
      by (cases "progress_print att") (auto simp: after_print_def handle_exception_eq)
    have 3: "progress_print att = Printed \<longrightarrow> after_print att st1 = st1"
      by (simp add: after_print_Printed)
    have "make_request att sess base st lo hi =
            Inr (sess @ [base @ ''/user?id='' @ str_int (lo + int (draw att) mod (hi - lo + 1))],
                 after_print att st1)"
      using assms Response Text by (simp add: make_request_Inr st1_def)
    with 1 2 3 show ?thesis by auto
  next
    case (TextRaises e end_time')
    with Response assms show ?thesis
      by (auto simp: make_request_Inr handle_exception_eq)
  qed
next
  case (GetRaises e end_time)
  with assms show ?thesis
    by (auto simp: make_request_Inr handle_exception_eq)
qed

lemma make_request_total:
  assumes "lo \<le> hi"
    and "make_request att sess base st lo hi = Inr (sess', st')"
  shows "total_requests st + 1 \<le> total_requests st'"
    and "total_requests st' \<le> total_requests st + 2"
    and "progress_print att = Printed \<Longrightarrow> total_requests st' = total_requests st + 1"
    and "length sess' = length sess + 1"
  using make_request_records [OF assms(1), of att sess base st] assms(2)
  by (auto simp: add_success_fields add_failure_fields)

text \<open>
  C9. When the response has a status other than 200 and its body is read, the request is
  counted as a failure (not as a success), and the message recorded for it is
  \<^verbatim>\<open>HTTP \<close>, the status in decimal, \<^verbatim>\<open>: \<close> and the first 100 characters of the body.
  This record is all the call adds to the object when the progress line is printed; when
  the \<^verbatim>\<open>print\<close> raises, the record of that exception follows it.
\<close>

theorem non_200_response:
  assumes "lo \<le> hi"
    and "get_result att = Response status end_time (Text content read_time)"
    and "status \<noteq> 200"
  shows "\<exists>sess' st'.
           make_request att sess base st lo hi = Inr (sess', st')
           \<and> st' = after_print att
                      (add_failure st (''HTTP '' @ str_int status @ '': '' @ take 100 content)
                         (end_time - start_time att))
           \<and> take (Suc (length (errors st))) (errors st')
               = errors st @ [''HTTP '' @ str_int status @ '': '' @ take 100 content]
           \<and> failed_requests st + 1 \<le> failed_requests st'
           \<and> successful_requests st' = successful_requests st
           \<and> (progress_print att = Printed \<longrightarrow>
                 st' = add_failure st (''HTTP '' @ str_int status @ '': '' @ take 100 content)
                         (end_time - start_time att)
                 \<and> errors st' = errors st @ [''HTTP '' @ str_int status @ '': '' @ take 100 content]
                 \<and> failed_requests st' = failed_requests st + 1
                 \<and> total_requests st' = total_requests st + 1)"
  using assms
  by (simp add: make_request_Inr after_print_fields add_failure_fields after_print_Printed
      split: print_result.splits)

text \<open>A 404 whose body is \<^verbatim>\<open>no such user\<close>, half a second after the start.\<close>

theorem non_200_response_witness:
  "make_request \<lparr>draw = 3, start_time = 10,
                  get_result = Response 404 (21 / 2) (Text ''no such user'' 12),
                  progress_print = Printed\<rparr>
     [] ''http://localhost:8080'' RequestStats_init 1 5
   = Inr ([''http://localhost:8080/user?id=4''],
          \<lparr>total_requests = 1, successful_requests = 0, failed_requests = 1,
           response_times = [1 / 2], errors = [''HTTP 404: no such user'']\<rparr>)"
proof -
  let ?att = "\<lparr>draw = 3, start_time = 10,
                get_result = Response 404 (21 / 2) (Text ''no such user'' 12),
                progress_print = Printed\<rparr>"
  have s: "str_int 404 = ''404''" "str_int 4 = ''4''"
    by code_simp+
  have "(1::int) \<le> 5" "get_result ?att = Response 404 (21 / 2) (Text ''no such user'' 12)"
    "(404::int) \<noteq> 200"
    by simp_all
  from non_200_response [OF this, of "[]" "''http://localhost:8080''" RequestStats_init]
  show ?thesis
    by (simp add: make_request_Inr s add_failure_def RequestStats_init_def after_print_def)
qed

text \<open>
  C7, as the code has it. When \<^verbatim>\<open>session.get\<close> or \<^verbatim>\<open>response.text\<close> raises, the request
  is counted as a failure. The message is \<^verbatim>\<open>ClientError: \<close> and \<^verbatim>\<open>str(e)\<close> for an
  \<^verbatim>\<open>aiohttp.ClientError\<close>, and \<^verbatim>\<open>Exception: \<close> and \<^verbatim>\<open>str(e)\<close> for every other exception,
  the \<^verbatim>\<open>asyncio.TimeoutError\<close> of the total timeout among them. The time from the start to
  the handler's clock reading is recorded when it is positive.
\<close>

theorem exception_classification:
  assumes "lo \<le> hi"
    and "get_result att = GetRaises e end_time
         \<or> get_result att = Response status t (TextRaises e end_time)"
  shows "\<exists>sess' st'.
           make_request att sess base st lo hi = Inr (sess', st')
           \<and> errors st' = errors st @
                [case e of ClientError d \<Rightarrow> ''ClientError: '' @ d
                         | TimeoutError d \<Rightarrow> ''Exception: '' @ d
                         | OtherException d \<Rightarrow> ''Exception: '' @ d]
           \<and> failed_requests st' = failed_requests st + 1
           \<and> successful_requests st' = successful_requests st
           \<and> total_requests st' = total_requests st + 1
           \<and> response_times st' =
               (if end_time - start_time att > 0
                then response_times st @ [end_time - start_time att]
                else response_times st)"
  using assms
  by (cases e) (auto simp: make_request_Inr handle_exception_eq add_failure_fields)

text \<open>A refused connection after a quarter of a second, and a body that cannot be decoded
  two seconds after the start.\<close>

theorem exception_classification_witness:
  "make_request \<lparr>draw = 0, start_time = 10,
                  get_result = GetRaises (ClientError ''Cannot connect to host'') (41 / 4),
                  progress_print = Printed\<rparr>
     [] ''http://localhost:8080'' RequestStats_init 1 5
   = Inr ([''http://localhost:8080/user?id=1''],
          \<lparr>total_requests = 1, successful_requests = 0, failed_requests = 1,
           response_times = [1 / 4], errors = [''ClientError: Cannot connect to host'']\<rparr>)
   \<and> make_request \<lparr>draw = 0, start_time = 10,
                  get_result = Response 200 11 (TextRaises (OtherException ''bad utf-8'') 12),
                  progress_print = Printed\<rparr>
     [] ''http://localhost:8080'' RequestStats_init 1 5
   = Inr ([''http://localhost:8080/user?id=1''],
          \<lparr>total_requests = 1, successful_requests = 0, failed_requests = 1,
           response_times = [2], errors = [''Exception: bad utf-8'']\<rparr>)"
proof -
  let ?a = "\<lparr>draw = 0, start_time = 10,
              get_result = GetRaises (ClientError ''Cannot connect to host'') (41 / 4),
              progress_print = Printed\<rparr>"
  let ?b = "\<lparr>draw = 0, start_time = 10,
              get_result = Response 200 11 (TextRaises (OtherException ''bad utf-8'') 12),
              progress_print = Printed\<rparr>"
  have s: "str_int 1 = ''1''"
    by code_simp
  have le: "(1::int) \<le> 5" by simp
  have a: "get_result ?a = GetRaises (ClientError ''Cannot connect to host'') (41 / 4)
           \<or> get_result ?a = Response 200 0 (TextRaises (ClientError ''Cannot connect to host'') (41 / 4))"
    by simp
  have b: "get_result ?b = GetRaises (OtherException ''bad utf-8'') 12
           \<or> get_result ?b = Response 200 11 (TextRaises (OtherException ''bad utf-8'') 12)"
    by simp
  from exception_classification [OF le a, of "[]" "''http://localhost:8080''" RequestStats_init]
       exception_classification [OF le b, of "[]" "''http://localhost:8080''" RequestStats_init]
  show ?thesis
    by (simp add: make_request_Inr s handle_exception_eq add_failure_def RequestStats_init_def)
qed

text \<open>The total timeout expires 30 seconds after the start: the second handler takes the
  exception, and the message does not start with \<^verbatim>\<open>ClientError\<close>.\<close>

theorem exception_classification_counterexample:
  "make_request \<lparr>draw = 0, start_time = 10, get_result = GetRaises (TimeoutError '''') 40,
                  progress_print = Printed\<rparr>
     [] ''http://localhost:8080'' RequestStats_init 1 5
   = Inr ([''http://localhost:8080/user?id=1''],
          \<lparr>total_requests = 1, successful_requests = 0, failed_requests = 1,
           response_times = [30], errors = [''Exception: '']\<rparr>)
   \<and> [''Exception: ''] \<noteq> [''ClientError: '' @ str (TimeoutError '''')]"
proof -
  have s: "str_int 1 = ''1''"
    by code_simp
  show ?thesis
    by (simp add: make_request_Inr s handle_exception_eq add_failure_def RequestStats_init_def)
qed

text \<open>
  C6, as the code has it. When a response arrives and its body is read, the latency
  handed to the statistics object is the time from the clock reading before the request
  to the clock reading made when \<^verbatim>\<open>session.get\<close> has returned the response, before the
  body is read. It is recorded for a status of 200, and for another status when it is
  positive. It is all the call adds to the latencies when the progress line is printed;
  when the \<^verbatim>\<open>print\<close> raises, the time to the handler's clock reading follows it when
  positive.
\<close>

theorem response_latency:
  assumes "lo \<le> hi"
    and "get_result att = Response status end_time (Text content read_time)"
  shows "\<exists>sess' st'.
           make_request att sess base st lo hi = Inr (sess', st')
           \<and> response_times st' =
               (if status = 200 \<or> end_time - start_time att > 0
                then response_times st @ [end_time - start_time att]
                else response_times st)
               @ (case progress_print att of
                    Printed \<Rightarrow> []
                  | PrintRaises e t \<Rightarrow>
                      if t - start_time att > 0 then [t - start_time att] else [])
           \<and> (progress_print att = Printed \<longrightarrow>
                 response_times st' =
                   (if status = 200 \<or> end_time - start_time att > 0
                    then response_times st @ [end_time - start_time att]
                    else response_times st))"
  using assms
  by (simp add: make_request_Inr after_print_fields add_failure_fields add_success_fields)

text \<open>Start at 10, response at 11, body read at 13.\<close>

theorem response_latency_witness:
  "make_request \<lparr>draw = 0, start_time = 10, get_result = Response 200 11 (Text ''ok'' 13),
                  progress_print = Printed\<rparr>
     [] ''http://localhost:8080'' RequestStats_init 1 5
   = Inr ([''http://localhost:8080/user?id=1''],
          \<lparr>total_requests = 1, successful_requests = 1, failed_requests = 0,
           response_times = [11 - 10], errors = []\<rparr>)"
proof -
  let ?a = "\<lparr>draw = 0, start_time = 10, get_result = Response 200 11 (Text ''ok'' 13),
              progress_print = Printed\<rparr>"
  have s: "str_int 1 = ''1''"
    by code_simp
  have le: "(1::int) \<le> 5" by simp
  have a: "get_result ?a = Response 200 11 (Text ''ok'' 13)" by simp
  from response_latency [OF le a, of "[]" "''http://localhost:8080''" RequestStats_init]
  show ?thesis
    by (simp add: make_request_Inr s add_success_def RequestStats_init_def after_print_def)
qed

text \<open>The same request: the body has been read 3 seconds after the start, and the latency
  recorded is 1 second.\<close>

theorem response_latency_counterexample:
  "make_request \<lparr>draw = 0, start_time = 10, get_result = Response 200 11 (Text ''ok'' 13),
                  progress_print = Printed\<rparr>
     [] ''http://localhost:8080'' RequestStats_init 1 5
   = Inr ([''http://localhost:8080/user?id=1''],
          \<lparr>total_requests = 1, successful_requests = 1, failed_requests = 0,
           response_times = [1], errors = []\<rparr>)
   \<and> [1] \<noteq> [(13::real) - 10]"
proof -
  have s: "str_int 1 = ''1''"
    by code_simp
  show ?thesis
    by (simp add: make_request_Inr s add_success_def RequestStats_init_def after_print_def)
qed

section \<open>Facts about the batch\<close>

lemma length_filter_update:
  "i < length xs \<Longrightarrow>
   length (filter P (xs[i := y])) + (if P (xs ! i) then 1 else 0)
     = length (filter P xs) + (if P y then 1 else 0)"
proof (induction xs arbitrary: i)
  case Nil
  then show ?case by simp
next
  case (Cons x xs)
  show ?case
  proof (cases i)
    case 0
    then show ?thesis by simp
  next
    case (Suc j)
    with Cons.prems have "j < length xs" by simp
    from Cons.IH [OF this] Suc show ?thesis by simp
  qed
qed

lemma step_Acquire:
  "step env base lo hi (Acquire i) b = Some b' \<longleftrightarrow>
     i < length (tasks b) \<and> tasks b ! i = Pending \<and> semaphore b > 0
     \<and> b' = b\<lparr>semaphore := semaphore b - 1, tasks := (tasks b)[i := InRequest]\<rparr>"
  by (auto simp: step_def)

lemma step_Release:
  "step env base lo hi (Release i) b = Some b' \<longleftrightarrow>
     i < length (tasks b) \<and> tasks b ! i = Leaving
     \<and> b' = b\<lparr>semaphore := semaphore b + 1, tasks := (tasks b)[i := Done]\<rparr>"
  by (auto simp: step_def)

lemma step_Execute:
  "step env base lo hi (Execute i) b = Some b' \<Longrightarrow>
     i < length (tasks b) \<and> tasks b ! i = InRequest
     \<and> tasks b' = (tasks b)[i := Leaving] \<and> semaphore b' = semaphore b"
  by (auto simp: step_def split: if_splits sum.splits prod.splits)

lemma step_Execute_ok:
  assumes "lo \<le> hi" and "step env base lo hi (Execute i) b = Some b'"
  shows "total_requests (stats b) + 1 \<le> total_requests (stats b')"
    and "total_requests (stats b') \<le> total_requests (stats b) + 2"
    and "progress_print (env i) = Printed \<Longrightarrow>
         total_requests (stats b') = total_requests (stats b) + 1"
    and "length (session b') = length (session b) + 1"
proof -
  obtain u st where m: "make_request (env i) (session b) base (stats b) lo hi = Inr (u, st)"
    using make_request_records [OF assms(1), of "env i" "session b" base "stats b"] by blast
  with assms(2) have "stats b' = st" "session b' = u"
    by (auto simp: step_def split: if_splits)
  with make_request_total [OF assms(1) m]
  show "total_requests (stats b) + 1 \<le> total_requests (stats b')"
    and "total_requests (stats b') \<le> total_requests (stats b) + 2"
    and "progress_print (env i) = Printed \<Longrightarrow>
         total_requests (stats b') = total_requests (stats b) + 1"
    and "length (session b') = length (session b) + 1"
    by simp_all
qed

lemma step_other:
  "step env base lo hi (Acquire i) b = Some b' \<Longrightarrow> stats b' = stats b \<and> session b' = session b"
  "step env base lo hi (Release i) b = Some b' \<Longrightarrow> stats b' = stats b \<and> session b' = session b"
  by (auto simp: step_def split: if_splits)

lemma step_length:
  "step env base lo hi a b = Some b' \<Longrightarrow> length (tasks b') = length (tasks b)"
  by (cases a) (auto simp: step_Acquire step_Release dest: step_Execute)

lemma step_holders:
  assumes "step env base lo hi a b = Some b'"
  shows "semaphore b' + holders b' = semaphore b + holders b"
proof (cases a)
  case (Acquire i)
  with assms have s: "i < length (tasks b)" "tasks b ! i = Pending" "semaphore b > 0"
    "tasks b' = (tasks b)[i := InRequest]" "semaphore b' = semaphore b - 1"
    by (simp_all add: step_Acquire)
  from length_filter_update [OF s(1), of holding InRequest] s(2)
  have "holders b' = holders b + 1"
    by (simp add: holders_def s(4))
  with s show ?thesis by simp
next
  case (Execute i)
  with assms have s: "i < length (tasks b)" "tasks b ! i = InRequest"
    "tasks b' = (tasks b)[i := Leaving]" "semaphore b' = semaphore b"
    using step_Execute by blast+
  from length_filter_update [OF s(1), of holding Leaving] s(2)
  have "holders b' = holders b"
    by (simp add: holders_def s(3))
  with s show ?thesis by simp
next
  case (Release i)
  with assms have s: "i < length (tasks b)" "tasks b ! i = Leaving"
    "tasks b' = (tasks b)[i := Done]" "semaphore b' = semaphore b + 1"
    by (simp_all add: step_Release)
  from length_filter_update [OF s(1), of holding Done] s(2)
  have "holders b' + 1 = holders b"
    by (simp add: holders_def s(3))
  with s show ?thesis by simp
qed

text \<open>The tasks whose request is over against the total of the object and the URLs
  requested: one step.\<close>

lemma step_returned:
  assumes "lo \<le> hi" and "step env base lo hi a b = Some b'"
  shows "length (filter returned (tasks b)) \<le> length (filter returned (tasks b'))"
    and "total_requests (stats b) + int (length (filter returned (tasks b')))
           \<le> total_requests (stats b') + int (length (filter returned (tasks b)))"
    and "total_requests (stats b') + 2 * int (length (filter returned (tasks b)))
           \<le> total_requests (stats b) + 2 * int (length (filter returned (tasks b')))"
    and "(\<forall>i. progress_print (env i) = Printed) \<Longrightarrow>
         total_requests (stats b') + int (length (filter returned (tasks b)))
           = total_requests (stats b) + int (length (filter returned (tasks b')))"
    and "length (session b') + length (filter returned (tasks b))
           = length (session b) + length (filter returned (tasks b'))"
proof -
  have "length (filter returned (tasks b)) \<le> length (filter returned (tasks b'))
        \<and> total_requests (stats b) + int (length (filter returned (tasks b')))
           \<le> total_requests (stats b') + int (length (filter returned (tasks b)))
        \<and> total_requests (stats b') + 2 * int (length (filter returned (tasks b)))
           \<le> total_requests (stats b) + 2 * int (length (filter returned (tasks b')))
        \<and> ((\<forall>i. progress_print (env i) = Printed) \<longrightarrow>
             total_requests (stats b') + int (length (filter returned (tasks b)))
               = total_requests (stats b) + int (length (filter returned (tasks b'))))
        \<and> length (session b') + length (filter returned (tasks b))
           = length (session b) + length (filter returned (tasks b'))"
  proof (cases a)
    case (Acquire i)
    with assms have s: "i < length (tasks b)" "tasks b ! i = Pending"
      "tasks b' = (tasks b)[i := InRequest]"
      by (simp_all add: step_Acquire)
    from length_filter_update [OF s(1), of returned InRequest] s(2)
    have "length (filter returned (tasks b')) = length (filter returned (tasks b))"
      by (simp add: s(3))
    with step_other(1) assms(2) Acquire show ?thesis by simp
  next
    case (Execute i)
    with assms have s: "i < length (tasks b)" "tasks b ! i = InRequest"
      "tasks b' = (tasks b)[i := Leaving]"
      using step_Execute by blast+
    from length_filter_update [OF s(1), of returned Leaving] s(2)
    have "length (filter returned (tasks b')) = length (filter returned (tasks b)) + 1"
      by (simp add: s(3))
    with step_Execute_ok [OF assms(1), of env base i b b'] assms(2) Execute
    show ?thesis by simp
  next
    case (Release i)
    with assms have s: "i < length (tasks b)" "tasks b ! i = Leaving"
      "tasks b' = (tasks b)[i := Done]"
      by (simp_all add: step_Release)
    from length_filter_update [OF s(1), of returned Done] s(2)
    have "length (filter returned (tasks b')) = length (filter returned (tasks b))"
      by (simp add: s(3))
    with step_other(2) assms(2) Release show ?thesis by simp
  qed
  then show "length (filter returned (tasks b)) \<le> length (filter returned (tasks b'))"
    and "total_requests (stats b) + int (length (filter returned (tasks b')))
           \<le> total_requests (stats b') + int (length (filter returned (tasks b)))"
    and "total_requests (stats b') + 2 * int (length (filter returned (tasks b)))
           \<le> total_requests (stats b) + 2 * int (length (filter returned (tasks b')))"
    and "(\<forall>i. progress_print (env i) = Printed) \<Longrightarrow>
         total_requests (stats b') + int (length (filter returned (tasks b)))
           = total_requests (stats b) + int (length (filter returned (tasks b')))"
    and "length (session b') + length (filter returned (tasks b))
           = length (session b) + length (filter returned (tasks b'))"
    by blast+
qed

lemma exec_append:
  "exec env base lo hi (xs @ ys) b =
     (case exec env base lo hi xs b of None \<Rightarrow> None | Some b' \<Rightarrow> exec env base lo hi ys b')"
  by (induction xs arbitrary: b) (auto split: option.splits)

lemma exec_holders:
  "exec env base lo hi sched b = Some b' \<Longrightarrow>
   semaphore b' + holders b' = semaphore b + holders b"
proof (induction sched arbitrary: b)
  case Nil
  then show ?case by simp
next
  case (Cons a sched)
  then obtain b1 where "step env base lo hi a b = Some b1"
    and "exec env base lo hi sched b1 = Some b'"
    by (auto split: option.splits)
  with Cons.IH [of b1] step_holders [of env base lo hi a b b1] show ?case by simp
qed

lemma exec_length:
  "exec env base lo hi sched b = Some b' \<Longrightarrow> length (tasks b') = length (tasks b)"
proof (induction sched arbitrary: b)
  case Nil
  then show ?case by simp
next
  case (Cons a sched)
  then obtain b1 where "step env base lo hi a b = Some b1"
    and "exec env base lo hi sched b1 = Some b'"
    by (auto split: option.splits)
  with Cons.IH [of b1] step_length [of env base lo hi a b b1] show ?case by simp
qed

lemma exec_returned:
  assumes "lo \<le> hi"
  shows "exec env base lo hi sched b = Some b' \<Longrightarrow>
     total_requests (stats b) + int (length (filter returned (tasks b')))
       \<le> total_requests (stats b') + int (length (filter returned (tasks b)))
     \<and> total_requests (stats b') + 2 * int (length (filter returned (tasks b)))
       \<le> total_requests (stats b) + 2 * int (length (filter returned (tasks b')))
     \<and> ((\<forall>i. progress_print (env i) = Printed) \<longrightarrow>
          total_requests (stats b') + int (length (filter returned (tasks b)))
            = total_requests (stats b) + int (length (filter returned (tasks b'))))
     \<and> length (session b') + length (filter returned (tasks b))
         = length (session b) + length (filter returned (tasks b'))"
proof (induction sched arbitrary: b)
  case Nil
  then show ?case by simp
next
  case (Cons a sched)
  then obtain b1 where s: "step env base lo hi a b = Some b1"
    and e: "exec env base lo hi sched b1 = Some b'"
    by (auto split: option.splits)
  note IH = Cons.IH [OF e] and S = step_returned [OF assms s]
  show ?case
  proof (intro conjI impI)
    show "total_requests (stats b) + int (length (filter returned (tasks b')))
       \<le> total_requests (stats b') + int (length (filter returned (tasks b)))"
      using IH S(2) by linarith
    show "total_requests (stats b') + 2 * int (length (filter returned (tasks b)))
       \<le> total_requests (stats b) + 2 * int (length (filter returned (tasks b')))"
      using IH S(3) by linarith
    show "total_requests (stats b') + int (length (filter returned (tasks b)))
            = total_requests (stats b) + int (length (filter returned (tasks b')))"
      if p: "\<forall>i. progress_print (env i) = Printed"
    proof -
      from IH p have "total_requests (stats b') + int (length (filter returned (tasks b1)))
            = total_requests (stats b1) + int (length (filter returned (tasks b')))"
        by blast
      with S(4) [OF p] show ?thesis by linarith
    qed
    show "length (session b') + length (filter returned (tasks b))
         = length (session b) + length (filter returned (tasks b'))"
      using IH S(5) by linarith
  qed
qed

lemma batch_init_fields:
  "semaphore (batch_init n k) = nat k"
  "tasks (batch_init n k) = replicate (nat n) Pending"
  "stats (batch_init n k) = RequestStats_init"
  "session (batch_init n k) = []"
  by (simp_all add: batch_init_def)

lemma filter_replicate_False: "\<not> P x \<Longrightarrow> filter P (replicate n x) = []"
  by (induction n) simp_all

lemma holders_init: "holders (batch_init n k) = 0"
  by (simp add: holders_def batch_init_fields filter_replicate_False)

lemma all_Done_returned:
  "list_all (\<lambda>t. t = Done) ts \<Longrightarrow> length (filter returned ts) = length ts"
  by (induction ts) simp_all

lemma step_Execute_ex:
  assumes "i < length (tasks b)" and "tasks b ! i = InRequest"
  shows "\<exists>b'. step env base lo hi (Execute i) b = Some b'"
  using assms by (simp add: step_def split: sum.splits prod.splits)

lemma one_by_one_Suc:
  "one_by_one m (Suc n) = [Acquire m, Execute m, Release m] @ one_by_one (Suc m) n"
proof -
  have "[m..<m + Suc n] = m # [Suc m..<Suc m + n]"
    by (simp add: upt_rec)
  then show ?thesis by (simp add: one_by_one_def)
qed

lemma one_by_one_exec:
  assumes "semaphore b > 0" and "tasks b = replicate m Done @ replicate n Pending"
  shows "\<exists>b'. exec env base lo hi (one_by_one m n) b = Some b'
              \<and> tasks b' = replicate (m + n) Done \<and> semaphore b' = semaphore b"
  using assms
proof (induction n arbitrary: m b)
  case 0
  then show ?case by (simp add: one_by_one_def)
next
  case (Suc n)
  have len: "m < length (tasks b)" and pend: "tasks b ! m = Pending"
    by (simp_all add: Suc.prems(2) nth_append)
  define b1 where "b1 = b\<lparr>semaphore := semaphore b - 1, tasks := (tasks b)[m := InRequest]\<rparr>"
  have s1: "step env base lo hi (Acquire m) b = Some b1"
    using len pend Suc.prems(1) by (simp add: step_Acquire b1_def)
  have "m < length (tasks b1)" "tasks b1 ! m = InRequest"
    using len by (simp_all add: b1_def)
  then obtain b2 where s2: "step env base lo hi (Execute m) b1 = Some b2"
    using step_Execute_ex by blast
  from step_Execute [OF s2]
  have t2: "tasks b2 = (tasks b)[m := Leaving]" and m2: "semaphore b2 = semaphore b - 1"
    by (simp_all add: b1_def)
  define b3 where "b3 = b2\<lparr>semaphore := semaphore b2 + 1, tasks := (tasks b2)[m := Done]\<rparr>"
  have s3: "step env base lo hi (Release m) b2 = Some b3"
    using len by (simp add: step_Release b3_def t2)
  have "tasks b3 = (replicate m Done @ Pending # replicate n Pending)[m := Done]"
    by (simp add: b3_def t2 Suc.prems(2))
  also have "\<dots> = replicate m Done @ Done # replicate n Pending"
    using list_update_length [of "replicate m Done" Pending "replicate n Pending" Done]
    by simp
  also have "\<dots> = replicate (Suc m) Done @ replicate n Pending"
    by (simp add: replicate_app_Cons_same)
  finally have t3: "tasks b3 = replicate (Suc m) Done @ replicate n Pending" .
  have m3: "semaphore b3 = semaphore b"
    using Suc.prems(1) by (simp add: b3_def m2)
  from Suc.IH [of b3 "Suc m"] t3 m3 Suc.prems(1)
  obtain b' where "exec env base lo hi (one_by_one (Suc m) n) b3 = Some b'"
    and "tasks b' = replicate (Suc m + n) Done" and "semaphore b' = semaphore b"
    by auto
  then show ?case
    by (simp add: one_by_one_Suc s1 s2 s3)
qed

lemma exec_snoc:
  "exec env base lo hi (sched @ [a]) b0 = Some b \<longleftrightarrow>
     (\<exists>b1. exec env base lo hi sched b0 = Some b1 \<and> step env base lo hi a b1 = Some b)"
  by (auto simp: exec_append split: option.splits)

lemma exec_prefix:
  "exec env base lo hi (pre @ post) b0 = Some b \<Longrightarrow>
     \<exists>b1. exec env base lo hi pre b0 = Some b1 \<and> exec env base lo hi post b1 = Some b"
  by (auto simp: exec_append split: option.splits)

text \<open>What the state of a task says about the steps taken so far.\<close>

lemma exec_history:
  assumes "exec env base lo hi sched (batch_init n k) = Some b" and "i < length (tasks b)"
  shows "(tasks b ! i = Pending \<longrightarrow> Acquire i \<notin> set sched \<and> Release i \<notin> set sched)
       \<and> (holding (tasks b ! i) \<longrightarrow> Acquire i \<in> set sched \<and> Release i \<notin> set sched)"
  using assms
proof (induction sched arbitrary: b rule: rev_induct)
  case Nil
  then have "b = batch_init n k" by simp
  with Nil.prems(2) have "tasks b ! i = Pending"
    by (simp add: batch_init_fields)
  then show ?case by simp
next
  case (snoc a sched)
  then obtain b1 where e: "exec env base lo hi sched (batch_init n k) = Some b1"
    and s: "step env base lo hi a b1 = Some b"
    by (auto simp: exec_snoc)
  have len: "i < length (tasks b1)"
    using step_length [OF s] snoc.prems(2) by simp
  note IH = snoc.IH [OF e len]
  show ?case
  proof (cases a)
    case (Acquire j)
    with s have "tasks b1 ! j = Pending" "tasks b = (tasks b1)[j := InRequest]"
      by (simp_all add: step_Acquire)
    with IH len Acquire show ?thesis
      by (cases "i = j") auto
  next
    case (Execute j)
    with s have "tasks b1 ! j = InRequest" "tasks b = (tasks b1)[j := Leaving]"
      using step_Execute by blast+
    with IH len Execute show ?thesis
      by (cases "i = j") auto
  next
    case (Release j)
    with s have "tasks b1 ! j = Leaving" "tasks b = (tasks b1)[j := Done]"
      by (simp_all add: step_Release)
    with IH len Release show ?thesis
      by (cases "i = j") auto
  qed
qed

lemma exec_init_bound:
  assumes "exec env base lo hi sched (batch_init n k) = Some b"
  shows "semaphore b + holders b = nat k" and "holders b \<le> nat k"
  using exec_holders [OF assms] by (simp_all add: batch_init_fields holders_init)

text \<open>
  C4. Along every execution of a batch whose semaphore starts at \<open>k\<close>, the number of
  tasks that hold the semaphore is at most \<open>k\<close>, in the last state and after every
  prefix of the execution (the counter and the number of holders always add up to \<open>k\<close>).
  Every run of \<^verbatim>\<open>make_request\<close> comes after the acquisition by its task and before the
  release by it, in a state in which the task is one of the at most \<open>k\<close> holders.
\<close>

theorem semaphore_bound:
  assumes "exec env base lo hi sched (batch_init n k) = Some b"
  shows "holders b \<le> nat k
     \<and> semaphore b + holders b = nat k
     \<and> (\<forall>pre post. sched = pre @ post \<longrightarrow>
          (\<exists>b1. exec env base lo hi pre (batch_init n k) = Some b1 \<and> holders b1 \<le> nat k))
     \<and> (\<forall>pre i post. sched = pre @ Execute i # post \<longrightarrow>
          Acquire i \<in> set pre \<and> Release i \<notin> set pre
          \<and> (\<exists>b1. exec env base lo hi pre (batch_init n k) = Some b1
                  \<and> holding (tasks b1 ! i) \<and> holders b1 \<le> nat k))"
proof (intro conjI allI impI)
  show "holders b \<le> nat k" "semaphore b + holders b = nat k"
    using exec_init_bound [OF assms] by simp_all
next
  fix pre post
  assume "sched = pre @ post"
  with assms obtain b1 where "exec env base lo hi pre (batch_init n k) = Some b1"
    using exec_prefix by blast
  with exec_init_bound(2) [OF this]
  show "\<exists>b1. exec env base lo hi pre (batch_init n k) = Some b1 \<and> holders b1 \<le> nat k"
    by blast
next
  fix pre i post
  assume sched: "sched = pre @ Execute i # post"
  with assms obtain b1 where e: "exec env base lo hi pre (batch_init n k) = Some b1"
    and "exec env base lo hi (Execute i # post) b1 = Some b"
    using exec_prefix by blast
  then obtain b2 where s: "step env base lo hi (Execute i) b1 = Some b2"
    by (auto split: option.splits)
  from step_Execute [OF s] have i: "i < length (tasks b1)" "tasks b1 ! i = InRequest"
    by simp_all
  then have h: "holding (tasks b1 ! i)" by simp
  with exec_history [OF e i(1)]
  show "Acquire i \<in> set pre" "Release i \<notin> set pre"
    by simp_all
  from e h exec_init_bound(2) [OF e]
  show "\<exists>b1. exec env base lo hi pre (batch_init n k) = Some b1
                  \<and> holding (tasks b1 ! i) \<and> holders b1 \<le> nat k"
    by blast
qed


lemma example_urls:
  "str_int 3 = ''3''" "str_int 4 = ''4''" "str_int 404 = ''404''"
  by code_simp+

lemma example_steps:
  "exec example_env ''http://localhost:8080'' 1 5 [Acquire 0, Acquire 1, Execute 0]
     (batch_init 3 2)
   = Some \<lparr>semaphore = 0, tasks = [Leaving, InRequest, Pending],
           stats = \<lparr>total_requests = 1, successful_requests = 1, failed_requests = 0,
                    response_times = [1], errors = []\<rparr>,
           session = [''http://localhost:8080/user?id=3'']\<rparr>"
  by (simp add: batch_init_def step_def example_env_def make_request_Inr example_urls
      RequestStats_init_def add_success_def after_print_def numeral_3_eq_3)

text \<open>Three tasks and a semaphore of 2: after two acquisitions and the first request, two
  tasks hold the semaphore; a third acquisition at that point is not a step.\<close>

theorem semaphore_bound_witness:
  "exec example_env ''http://localhost:8080'' 1 5 [Acquire 0, Acquire 1, Execute 0]
     (batch_init 3 2)
   = Some \<lparr>semaphore = 0, tasks = [Leaving, InRequest, Pending],
           stats = \<lparr>total_requests = 1, successful_requests = 1, failed_requests = 0,
                    response_times = [1], errors = []\<rparr>,
           session = [''http://localhost:8080/user?id=3'']\<rparr>
   \<and> holders \<lparr>semaphore = 0, tasks = [Leaving, InRequest, Pending],
           stats = \<lparr>total_requests = 1, successful_requests = 1, failed_requests = 0,
                    response_times = [1], errors = []\<rparr>,
           session = [''http://localhost:8080/user?id=3'']\<rparr> = 2
   \<and> Acquire 0 \<in> set [Acquire 0, Acquire 1]
   \<and> Release 0 \<notin> set [Acquire 0, Acquire 1]
   \<and> exec example_env ''http://localhost:8080'' 1 5 [Acquire 0, Acquire 1, Acquire 2]
        (batch_init 3 2) = None"
proof -
  have blocked: "exec example_env ''http://localhost:8080'' 1 5 [Acquire 0, Acquire 1, Acquire 2]
        (batch_init 3 2) = None"
    by (simp add: batch_init_def step_def numeral_3_eq_3)
  have split: "[Acquire 0, Acquire 1, Execute 0] = [Acquire 0, Acquire 1] @ Execute 0 # []"
    by simp
  from semaphore_bound [OF example_steps] split
  have "Acquire 0 \<in> set [Acquire 0, Acquire 1] \<and> Release 0 \<notin> set [Acquire 0, Acquire 1]"
    by blast
  moreover from semaphore_bound [OF example_steps]
  have "holders \<lparr>semaphore = 0, tasks = [Leaving, InRequest, Pending],
           stats = \<lparr>total_requests = 1, successful_requests = 1, failed_requests = 0,
                    response_times = [1], errors = []\<rparr>,
           session = [''http://localhost:8080/user?id=3'']\<rparr> \<le> nat 2"
    by blast
  moreover have "holders \<lparr>semaphore = 0, tasks = [Leaving, InRequest, Pending],
           stats = \<lparr>total_requests = 1, successful_requests = 1, failed_requests = 0,
                    response_times = [1], errors = []\<rparr>,
           session = [''http://localhost:8080/user?id=3'']\<rparr> = 2"
    by (simp add: holders_def)
  ultimately show ?thesis
    using example_steps blocked by simp
qed

lemma run_Inr:
  "run_concurrent_requests env sched base n k lo hi = Some (Inr (u, st)) \<longleftrightarrow>
     0 \<le> k \<and> (\<exists>b. exec env base lo hi sched (batch_init n k) = Some b
                  \<and> list_all (\<lambda>t. t = Done) (tasks b) \<and> u = session b \<and> st = stats b)"
  by (auto simp: run_concurrent_requests_def split: option.splits if_splits)

lemma run_complete:
  assumes "0 < k"
  shows "\<exists>u st. run_concurrent_requests env (one_by_one 0 (nat n)) base n k lo hi
                  = Some (Inr (u, st))"
proof -
  have "semaphore (batch_init n k) > 0"
    and "tasks (batch_init n k) = replicate 0 Done @ replicate (nat n) Pending"
    using assms by (simp_all add: batch_init_fields)
  from one_by_one_exec [OF this, of env base lo hi]
  obtain b where "exec env base lo hi (one_by_one 0 (nat n)) (batch_init n k) = Some b"
    and "tasks b = replicate (nat n) Done"
    by auto
  moreover have "list_all (\<lambda>t. t = Done) (replicate (nat n) Done)"
    by (simp add: list_all_iff)
  ultimately show ?thesis
    using assms by (simp add: run_Inr)
qed

text \<open>A batch that has run to completion has requested one URL for each request. The
  total of its object is the number of requests when every progress line was printed;
  it is never less, and never more than twice that number.\<close>

lemma run_total:
  assumes "lo \<le> hi" and "run_concurrent_requests env sched base n k lo hi = Some (Inr (u, st))"
  shows "int (nat n) \<le> total_requests st"
    and "total_requests st \<le> 2 * int (nat n)"
    and "(\<forall>i. progress_print (env i) = Printed) \<Longrightarrow> total_requests st = int (nat n)"
    and "length u = nat n"
proof -
  from assms(2) obtain b where e: "exec env base lo hi sched (batch_init n k) = Some b"
    and d: "list_all (\<lambda>t. t = Done) (tasks b)" and u: "u = session b" and st: "st = stats b"
    by (auto simp: run_Inr)
  have len: "length (tasks b) = nat n"
    using exec_length [OF e] by (simp add: batch_init_fields)
  have r: "length (filter returned (tasks b)) = nat n"
    using all_Done_returned [OF d] len by simp
  have r0: "filter returned (tasks (batch_init n k)) = []"
    by (simp add: batch_init_fields filter_replicate_False)
  from exec_returned [OF assms(1) e]
  show "int (nat n) \<le> total_requests st"
    and "total_requests st \<le> 2 * int (nat n)"
    and "(\<forall>i. progress_print (env i) = Printed) \<Longrightarrow> total_requests st = int (nat n)"
    and "length u = nat n"
    by (simp_all add: r r0 u st batch_init_fields RequestStats_init_def)
qed

lemma batch_total_printed:
  assumes "0 < n" and "0 < k" and "lo < hi" and "\<forall>i. progress_print (env i) = Printed"
  shows "(\<exists>sched u st. run_concurrent_requests env sched base n k lo hi = Some (Inr (u, st)))
     \<and> (\<forall>sched u st.
          run_concurrent_requests env sched base n k lo hi = Some (Inr (u, st)) \<longrightarrow>
          total_requests st = n \<and> sm_total_requests (get_summary st) = n
          \<and> int (length u) = n)"
proof (intro conjI allI impI)
  show "\<exists>sched u st. run_concurrent_requests env sched base n k lo hi = Some (Inr (u, st))"
    using run_complete [OF assms(2)] by blast
next
  fix sched u st
  assume "run_concurrent_requests env sched base n k lo hi = Some (Inr (u, st))"
  with run_total [of lo hi env sched base n k u st] assms
  show "total_requests st = n" "sm_total_requests (get_summary st) = n" "int (length u) = n"
    by (simp_all add: get_summary_sel)
qed

lemma example_run:
  "run_concurrent_requests example_env
     [Acquire 1, Acquire 0, Execute 1, Release 1, Execute 0, Release 0]
     ''http://localhost:8080'' 2 2 1 5
   = Some (Inr ([''http://localhost:8080/user?id=4'', ''http://localhost:8080/user?id=3''],
                \<lparr>total_requests = 2, successful_requests = 1, failed_requests = 1,
                 response_times = [1 / 2, 1], errors = [''HTTP 404: no such user'']\<rparr>))"
  by (simp add: run_concurrent_requests_def batch_init_def step_def example_env_def
      make_request_Inr example_urls RequestStats_init_def add_success_def add_failure_def
      after_print_def numeral_2_eq_2)

text \<open>
  C1, at an input on which the code does not do what the claim says. One request, a
  concurrency of 1, identifiers from 1 to 5. The response is a 200 and \<open>add_success\<close>
  records it; the \<^verbatim>\<open>print\<close> of its progress line raises (the standard output is a closed
  pipe); the second handler takes the exception and calls \<open>add_failure\<close>. The batch runs
  to completion, and its object has a total of 2 for 1 request: one success and one
  failure.
\<close>

theorem print_failure_recorded_twice:
  "run_concurrent_requests
     (\<lambda>i. \<lparr>draw = 0, start_time = 10, get_result = Response 200 11 (Text ''ok'' 12),
           progress_print = PrintRaises (OtherException ''[Errno 32] Broken pipe'') 13\<rparr>)
     [Acquire 0, Execute 0, Release 0] ''http://localhost:8080'' 1 1 1 5
   = Some (Inr ([''http://localhost:8080/user?id=1''],
                \<lparr>total_requests = 2, successful_requests = 1, failed_requests = 1,
                 response_times = [1, 3],
                 errors = [''Exception: [Errno 32] Broken pipe'']\<rparr>))
   \<and> sm_total_requests (get_summary
        \<lparr>total_requests = 2, successful_requests = 1, failed_requests = 1,
         response_times = [1, 3], errors = [''Exception: [Errno 32] Broken pipe'']\<rparr>) = 2
   \<and> sm_success_rate (get_summary
        \<lparr>total_requests = 2, successful_requests = 1, failed_requests = 1,
         response_times = [1, 3], errors = [''Exception: [Errno 32] Broken pipe'']\<rparr>) = 50"
proof -
  have s: "str_int 1 = ''1''"
    by code_simp
  show ?thesis
    by (simp add: run_concurrent_requests_def batch_init_def step_def make_request_Inr s
        RequestStats_init_def add_success_def add_failure_def after_print_def
        handle_exception_eq get_summary_sel)
qed

section \<open>Facts about \<^verbatim>\<open>main\<close>\<close>

lemma main_valid:
  assumes "0 < requests args" and "0 < concurrency args" and "min_id args < max_id args"
  shows "main env sched args =
     (case run_concurrent_requests env sched (url args) (requests args) (concurrency args)
             (min_id args) (max_id args) of
        None \<Rightarrow> None
      | Some (Inl e) \<Rightarrow> Some (ErrorMessage e, [])
      | Some (Inr (u, st)) \<Rightarrow> Some (Report (get_summary st), u))"
  using assms by (simp add: main_def)

lemma run_not_Inl:
  "0 \<le> k \<Longrightarrow> run_concurrent_requests env sched base n k lo hi \<noteq> Some (Inl e)"
  by (simp add: run_concurrent_requests_def split: option.splits)

text \<open>
  C8. When the number of requests is not positive, or the concurrency is not positive, or
  the least identifier is not below the greatest, \<open>main\<close> prints the message of the
  first check that fails and returns: no URL has been requested and no statistics object
  exists. When the three checks pass, \<open>main\<close> runs the batch: what it prints is the
  batch's summary, one URL has been requested for each request, and the batch has an
  execution that gets there. The total of the summary is the number of requests when every
  progress line was printed, and between that number and twice that number in any case.
\<close>

theorem main_validation:
  "(requests args \<le> 0 \<longrightarrow> main env sched args = Some (ConfigError RequestsNotPositive, []))
   \<and> (0 < requests args \<and> concurrency args \<le> 0 \<longrightarrow>
        main env sched args = Some (ConfigError ConcurrencyNotPositive, []))
   \<and> (0 < requests args \<and> 0 < concurrency args \<and> max_id args \<le> min_id args \<longrightarrow>
        main env sched args = Some (ConfigError MinIdNotBelowMaxId, []))
   \<and> (0 < requests args \<and> 0 < concurrency args \<and> min_id args < max_id args \<longrightarrow>
        main env sched args =
          (case run_concurrent_requests env sched (url args) (requests args)
                  (concurrency args) (min_id args) (max_id args) of
             None \<Rightarrow> None
           | Some (Inl e) \<Rightarrow> Some (ErrorMessage e, [])
           | Some (Inr (u, st)) \<Rightarrow> Some (Report (get_summary st), u))
        \<and> (\<forall>p u. main env sched args = Some (p, u) \<longrightarrow>
              (\<exists>sm. p = Report sm
                    \<and> requests args \<le> sm_total_requests sm
                    \<and> sm_total_requests sm \<le> 2 * requests args
                    \<and> ((\<forall>i. progress_print (env i) = Printed) \<longrightarrow>
                          sm_total_requests sm = requests args))
              \<and> int (length u) = requests args)
        \<and> (\<exists>sched' sm u. main env sched' args = Some (Report sm, u)))"
proof (intro conjI impI allI)
  show "main env sched args = Some (ConfigError RequestsNotPositive, [])"
    if "requests args \<le> 0"
    using that by (simp add: main_def)
  show "main env sched args = Some (ConfigError ConcurrencyNotPositive, [])"
    if "0 < requests args \<and> concurrency args \<le> 0"
    using that by (simp add: main_def)
  show "main env sched args = Some (ConfigError MinIdNotBelowMaxId, [])"
    if "0 < requests args \<and> 0 < concurrency args \<and> max_id args \<le> min_id args"
    using that by (simp add: main_def)
next
  assume v: "0 < requests args \<and> 0 < concurrency args \<and> min_id args < max_id args"
  then show m: "main env sched args =
          (case run_concurrent_requests env sched (url args) (requests args)
                  (concurrency args) (min_id args) (max_id args) of
             None \<Rightarrow> None
           | Some (Inl e) \<Rightarrow> Some (ErrorMessage e, [])
           | Some (Inr (u, st)) \<Rightarrow> Some (Report (get_summary st), u))"
    by (simp add: main_valid)
  from v have k: "0 \<le> concurrency args" and le: "min_id args \<le> max_id args"
    and n: "int (nat (requests args)) = requests args"
    by simp_all
  {
    fix p u
    assume "main env sched args = Some (p, u)"
    with m obtain st where
      r: "run_concurrent_requests env sched (url args) (requests args) (concurrency args)
            (min_id args) (max_id args) = Some (Inr (u, st))"
      and p: "p = Report (get_summary st)"
      using run_not_Inl [OF k, of env sched "url args" "requests args" "min_id args" "max_id args"]
      by (auto split: option.splits sum.splits)
    from run_total [OF le r] n p
    show "\<exists>sm. p = Report sm
               \<and> requests args \<le> sm_total_requests sm
               \<and> sm_total_requests sm \<le> 2 * requests args
               \<and> ((\<forall>i. progress_print (env i) = Printed) \<longrightarrow>
                     sm_total_requests sm = requests args)"
      and "int (length u) = requests args"
      by (simp_all add: get_summary_sel)
  }
  from v have "0 < concurrency args" by simp
  from run_complete [OF this, of env "requests args" "url args" "min_id args" "max_id args"]
  obtain u st where
    "run_concurrent_requests env (one_by_one 0 (nat (requests args))) (url args)
       (requests args) (concurrency args) (min_id args) (max_id args) = Some (Inr (u, st))"
    by blast
  with v have "main env (one_by_one 0 (nat (requests args))) args
                 = Some (Report (get_summary st), u)"
    by (simp add: main_valid)
  then show "\<exists>sched' sm u. main env sched' args = Some (Report sm, u)"
    by blast
qed

text \<open>No request, a negative concurrency, an empty range of identifiers, and a batch of two
  requests.\<close>

theorem main_validation_witness:
  "main example_env [Acquire 0]
     \<lparr>url = ''http://localhost:8080'', requests = 0, concurrency = 100,
      min_id = 1, max_id = 10000, json_output = False\<rparr>
     = Some (ConfigError RequestsNotPositive, [])
   \<and> main example_env [Acquire 0]
     \<lparr>url = ''http://localhost:8080'', requests = 200, concurrency = - 1,
      min_id = 1, max_id = 10000, json_output = False\<rparr>
     = Some (ConfigError ConcurrencyNotPositive, [])
   \<and> main example_env [Acquire 0]
     \<lparr>url = ''http://localhost:8080'', requests = 200, concurrency = 100,
      min_id = 5, max_id = 5, json_output = False\<rparr>
     = Some (ConfigError MinIdNotBelowMaxId, [])
   \<and> main example_env [Acquire 1, Acquire 0, Execute 1, Release 1, Execute 0, Release 0]
     \<lparr>url = ''http://localhost:8080'', requests = 2, concurrency = 2,
      min_id = 1, max_id = 5, json_output = True\<rparr>
     = Some (Report (get_summary
                \<lparr>total_requests = 2, successful_requests = 1, failed_requests = 1,
                 response_times = [1 / 2, 1], errors = [''HTTP 404: no such user'']\<rparr>),
             [''http://localhost:8080/user?id=4'', ''http://localhost:8080/user?id=3''])"
proof -
  let ?a = "\<lparr>url = ''http://localhost:8080'', requests = 0, concurrency = 100,
      min_id = 1, max_id = 10000, json_output = False\<rparr>"
  let ?b = "\<lparr>url = ''http://localhost:8080'', requests = 200, concurrency = - 1,
      min_id = 1, max_id = 10000, json_output = False\<rparr>"
  let ?c = "\<lparr>url = ''http://localhost:8080'', requests = 200, concurrency = 100,
      min_id = 5, max_id = 5, json_output = False\<rparr>"
  let ?d = "\<lparr>url = ''http://localhost:8080'', requests = 2, concurrency = 2,
      min_id = 1, max_id = 5, json_output = True\<rparr>"
  from main_validation [of ?a example_env "[Acquire 0]"]
  have a: "main example_env [Acquire 0] ?a = Some (ConfigError RequestsNotPositive, [])"
    by simp
  from main_validation [of ?b example_env "[Acquire 0]"]
  have b: "main example_env [Acquire 0] ?b = Some (ConfigError ConcurrencyNotPositive, [])"
    by simp
  from main_validation [of ?c example_env "[Acquire 0]"]
  have c: "main example_env [Acquire 0] ?c = Some (ConfigError MinIdNotBelowMaxId, [])"
    by simp
  have "0 < requests ?d \<and> 0 < concurrency ?d \<and> min_id ?d < max_id ?d"
    by simp
  with main_validation
    [of ?d example_env "[Acquire 1, Acquire 0, Execute 1, Release 1, Execute 0, Release 0]"]
  have "main example_env [Acquire 1, Acquire 0, Execute 1, Release 1, Execute 0, Release 0] ?d
     = (case run_concurrent_requests example_env
               [Acquire 1, Acquire 0, Execute 1, Release 1, Execute 0, Release 0]
               (url ?d) (requests ?d) (concurrency ?d) (min_id ?d) (max_id ?d) of
          None \<Rightarrow> None
        | Some (Inl e) \<Rightarrow> Some (ErrorMessage e, [])
        | Some (Inr (u, st)) \<Rightarrow> Some (Report (get_summary st), u))"
    by blast
  then have d: "main example_env [Acquire 1, Acquire 0, Execute 1, Release 1, Execute 0, Release 0] ?d
     = Some (Report (get_summary
                \<lparr>total_requests = 2, successful_requests = 1, failed_requests = 1,
                 response_times = [1 / 2, 1], errors = [''HTTP 404: no such user'']\<rparr>),
             [''http://localhost:8080/user?id=4'', ''http://localhost:8080/user?id=3''])"
    by (simp add: example_run del: One_nat_def)
  from a b c d show ?thesis by (simp del: One_nat_def)
qed

end
